theory Spec2Isabelle
  imports Complex_Main "HOL-Library.AList" "HOL-Library.Sublist"
begin

section \<open>JavaScript values\<close>

text \<open>
  The service of \<^verbatim>\<open>server.js\<close> keeps its products in a module-level array of plain objects
  and reads request bodies as parsed JSON. A JSON value is modelled by \<open>json\<close>; numbers
  are exact rationals (the rounding and the range of IEEE doubles are outside the model), strings
  are lists of 8-bit characters (ASCII text). An object is an association list in insertion order,
  read with \<open>map_of\<close> (keys that are array indices, which the engine enumerates first, stay
  where they were inserted); \<open>None\<close> stands for \<^verbatim>\<open>undefined\<close>.
\<close>

datatype json =
    JNull
  | JBool bool
  | JNum rat
  | JStr string
  | JArr "json list"
  | JObj "(string \<times> json) list"

type_synonym obj = "(string \<times> json) list"

text \<open>Property read \<^verbatim>\<open>o.k\<close>, for keys that \<^verbatim>\<open>Object.prototype\<close> does not define.\<close>

definition get_prop :: "obj \<Rightarrow> string \<Rightarrow> json option" where
  "get_prop ob k = map_of ob k"

text \<open>Property write \<^verbatim>\<open>o.k = v\<close>: an existing key keeps its place, a new one is appended.\<close>

definition set_prop :: "string \<Rightarrow> json \<Rightarrow> obj \<Rightarrow> obj" where
  "set_prop k v ob = AList.update k v ob"

text \<open>
  Object spread \<^verbatim>\<open>{...target, ...src}\<close>: for each own key of \<open>src\<close>, in order, the value read
  from \<open>src\<close> is written onto \<open>target\<close>. The keys of an object are distinct; \<open>own_keys\<close>
  lists each key of the association list once.
\<close>

definition own_keys :: "obj \<Rightarrow> string list" where
  "own_keys ob = remdups (map fst ob)"

definition copy_prop :: "obj \<Rightarrow> string \<Rightarrow> obj \<Rightarrow> obj" where
  "copy_prop src k target = (case get_prop src k of None \<Rightarrow> target | Some v \<Rightarrow> set_prop k v target)"

definition spread :: "obj \<Rightarrow> obj \<Rightarrow> obj" where
  "spread target src = fold (copy_prop src) (own_keys src) target"

text \<open>\<^verbatim>\<open>ToBoolean\<close>: the falsy values are undefined, null, false, 0 and the empty string.\<close>

fun truthy :: "json option \<Rightarrow> bool" where
  "truthy None = False"
| "truthy (Some JNull) = False"
| "truthy (Some (JBool b)) = b"
| "truthy (Some (JNum n)) = (n \<noteq> 0)"
| "truthy (Some (JStr s)) = (s \<noteq> [])"
| "truthy (Some (JArr xs)) = True"
| "truthy (Some (JObj kvs)) = True"

text \<open>
  \<^verbatim>\<open>v === s\<close> where \<open>s\<close> is a string or undefined: only the same string is strictly equal
  to a string, only undefined to undefined.
\<close>

definition strict_eq_str :: "json option \<Rightarrow> string option \<Rightarrow> bool" where
  "strict_eq_str v s = (case s of None \<Rightarrow> v = None | Some t \<Rightarrow> v = Some (JStr t))"

text \<open>\<^verbatim>\<open>String.prototype.toLowerCase\<close> on ASCII text.\<close>

definition toLowerChar :: "char \<Rightarrow> char" where
  "toLowerChar c =
     (let n = (of_char c :: nat) in if 65 \<le> n \<and> n \<le> 90 then char_of (n + 32) else c)"

definition toLowerCase :: "string \<Rightarrow> string" where
  "toLowerCase s = map toLowerChar s"

text \<open>\<^verbatim>\<open>String.prototype.includes\<close>: \<open>sub\<close> occurs in \<open>s\<close> as a contiguous run.\<close>

fun str_includes :: "string \<Rightarrow> string \<Rightarrow> bool" where
  "str_includes [] sub = (sub = [])"
| "str_includes (c # cs) sub = (prefix sub (c # cs) \<or> str_includes cs sub)"

section \<open>Errors\<close>

text \<open>
  The grounds on which \<^verbatim>\<open>express.json()\<close> refuses the body of a request: JSON text that does
  not parse, or a body whose size contradicts its declared length (status 400, with the message
  of the syntax error or of the parser), a body above the size limit of 100kb (status 413), and
  a charset or content encoding that the parser does not support (status 415).
\<close>

datatype refusal =
    BadRequest string
  | TooLarge
  | Unsupported string

fun refusal_status :: "refusal \<Rightarrow> nat" where
  "refusal_status (BadRequest m) = 400"
| "refusal_status TooLarge = 413"
| "refusal_status (Unsupported m) = 415"

fun refusal_message :: "refusal \<Rightarrow> string" where
  "refusal_message (BadRequest m) = m"
| "refusal_message TooLarge = ''request entity too large''"
| "refusal_message (Unsupported m) = m"

text \<open>
  \<open>ValidationError\<close> and \<open>NotFoundError\<close> are the classes that \<^verbatim>\<open>server.js\<close> imports from
  \<^verbatim>\<open>./errors\<close>; \<open>TypeError\<close> is the engine's error for a call on a value that has no
  such function; \<open>ParserError\<close> is the error that the body parser passes on when it refuses a
  body. Each carries its message (the text of a \<open>TypeError\<close> is the engine's own).
\<close>

datatype error =
    ValidationError string
  | NotFoundError string
  | TypeError string
  | ParserError refusal

fun message :: "error \<Rightarrow> string" where
  "message (ValidationError m) = m"
| "message (NotFoundError m) = m"
| "message (TypeError m) = m"
| "message (ParserError f) = refusal_message f"

text \<open>
  Modelled from the spec: the module \<^verbatim>\<open>./errors\<close> is not among the sources. Section 7 of the
  specification gives \<open>ValidationError\<close> the status 400 and \<open>NotFoundError\<close> the status 404;
  an engine error has no \<^verbatim>\<open>statusCode\<close> property, and the error of the body parser carries
  the status of its ground.
\<close>

fun statusCode :: "error \<Rightarrow> nat option" where
  "statusCode (ValidationError m) = Some 400"
| "statusCode (NotFoundError m) = Some 404"
| "statusCode (TypeError m) = None"
| "statusCode (ParserError f) = Some (refusal_status f)"

text \<open>
  The call \<^verbatim>\<open>e.toLowerCase()\<close> on the value of the expression \<open>e\<close>: only a string has the
  function. Reading a property of undefined or null throws; any other JSON value has no callable
  \<^verbatim>\<open>toLowerCase\<close>.
\<close>

fun call_toLowerCase :: "string \<Rightarrow> json option \<Rightarrow> error + string" where
  "call_toLowerCase e (Some (JStr s)) = Inr (toLowerCase s)"
| "call_toLowerCase e None =
     Inl (TypeError ''Cannot read properties of undefined (reading 'toLowerCase')'')"
| "call_toLowerCase e (Some JNull) =
     Inl (TypeError ''Cannot read properties of null (reading 'toLowerCase')'')"
| "call_toLowerCase e (Some v) = Inl (TypeError (e @ ''.toLowerCase is not a function''))"

text \<open>
  \<^verbatim>\<open>Array.prototype.filter\<close> with a callback that may throw: the elements are visited in
  order and the first exception ends the scan.
\<close>

fun filter_throwing :: "('a \<Rightarrow> error + bool) \<Rightarrow> 'a list \<Rightarrow> error + 'a list" where
  "filter_throwing f [] = Inr []"
| "filter_throwing f (x # xs) =
     (case f x of
        Inl e \<Rightarrow> Inl e
      | Inr b \<Rightarrow>
          (case filter_throwing f xs of
             Inl e \<Rightarrow> Inl e
           | Inr ys \<Rightarrow> Inr (if b then x # ys else ys)))"

section \<open>Requests, responses and the process environment\<close>

datatype http_method = GET | POST | PUT | DELETE

text \<open>
  The code computes with the numbers that the query texts \<^verbatim>\<open>page\<close> and \<^verbatim>\<open>limit\<close> are coerced
  to, which are IEEE doubles. A double holds every integer of absolute value up to
  \<open>2\<^sup>5\<^sup>3 - 1\<close> exactly (the safe integers); a text that spells a larger integer is rounded,
  or becomes \<^verbatim>\<open>Infinity\<close>, and is outside the model: the type \<open>safe_integer\<close> excludes it.
\<close>

typedef safe_integer = "{i :: int. \<bar>i\<bar> \<le> 9007199254740991}"
  morphisms int_of Safe
  by (rule exI [of _ 0]) simp

instantiation safe_integer :: equal
begin

definition equal_safe_integer :: "safe_integer \<Rightarrow> safe_integer \<Rightarrow> bool" where
  "equal_safe_integer a b = (int_of a = int_of b)"

instance
  by standard (simp add: equal_safe_integer_def int_of_inject)

end

text \<open>
  The query of a request, as \<^verbatim>\<open>req.query\<close> holds it: each parameter is absent or a string.
  \<open>q_page\<close> and \<open>q_limit\<close> are given by the safe integer that the parameter's decimal text
  spells, which is the number the arithmetic of the list handler coerces it to; a parameter that
  spells no safe integer, and a repeated or bracketed parameter (parsed to an array or an
  object), are outside the model.
\<close>

record query =
  q_category :: "string option"
  q_page :: "safe_integer option"
  q_limit :: "safe_integer option"
  q_q :: "string option"

text \<open>
  What the body parser \<^verbatim>\<open>express.json()\<close> makes of the body of a request: it accepts it and
  leaves a JSON object in \<^verbatim>\<open>req.body\<close>, or it refuses it. A request without a body has the
  empty object (what the parser of Express 4 leaves). A top-level array, which the parser
  accepts as well, has no property \<^verbatim>\<open>name\<close>, \<^verbatim>\<open>price\<close> or \<^verbatim>\<open>category\<close>: validation
  rejects it as it rejects the empty object, no other handler reads the body, and such a
  request is modelled with the empty object.
\<close>

datatype payload =
    Accepted obj
  | Refused refusal

text \<open>
  A request: its HTTP verb, the non-empty, decoded segments of its path, the route parameters
  that the router fills in, its query, the header \<^verbatim>\<open>x-api-key\<close> and its payload. The methods
  HEAD and OPTIONS are outside the model.
\<close>

record request =
  http_method :: http_method
  path :: "string list"
  params :: "(string \<times> string) list"
  query :: query
  x_api_key :: "string option"
  payload :: payload

text \<open>\<^verbatim>\<open>req.body\<close>, as the body parser leaves it for the handlers.\<close>

definition body :: "request \<Rightarrow> obj" where
  "body r = (case payload r of Accepted b \<Rightarrow> b | Refused f \<Rightarrow> [])"

datatype content =
    JsonBody json
  | TextBody string
  | HtmlBody string
  | NoBody

record response =
  status :: nat
  content :: content

text \<open>
  What a request reads from outside the program: \<^verbatim>\<open>process.env.API_KEY\<close> (unset when \<open>None\<close>),
  the identifier that \<^verbatim>\<open>uuidv4()\<close> returns, the text of \<^verbatim>\<open>new Date().toISOString()\<close>, and the
  engine's conversion of a number to a string.
\<close>

record ctx =
  API_KEY :: "string option"
  uuid :: string
  now :: string
  number_to_string :: "rat \<Rightarrow> string"

text \<open>
  A middleware or handler either passes the request on (\<^verbatim>\<open>next()\<close>), sends a response, or
  fails: it throws, or calls \<^verbatim>\<open>next(err)\<close>. It returns the products array as it leaves it.
\<close>

datatype outcome =
    Next request
  | Responded response
  | Failed error

type_synonym handler = "ctx \<Rightarrow> request \<Rightarrow> obj list \<Rightarrow> outcome \<times> obj list"

definition json_response :: "nat \<Rightarrow> json \<Rightarrow> response" where
  "json_response code v = \<lparr>status = code, content = JsonBody v\<rparr>"

section \<open>The products array\<close>

text \<open>The two seeded products, with the identifiers drawn for them at start-up.\<close>

definition initial_products :: "string \<Rightarrow> string \<Rightarrow> obj list" where
  "initial_products id1 id2 =
     [[(''id'', JStr id1), (''name'', JStr ''Laptop''),
       (''description'', JStr ''High performance laptop''), (''price'', JNum (99999 / 100)),
       (''category'', JStr ''Electronics''), (''inStock'', JBool True)],
      [(''id'', JStr id2), (''name'', JStr ''Smartphone''),
       (''description'', JStr ''Latest model''), (''price'', JNum (69999 / 100)),
       (''category'', JStr ''Electronics''), (''inStock'', JBool True)]]"

section \<open>Middleware\<close>

text \<open>
  \<^verbatim>\<open>express.json()\<close> (line 11), the first layer of the application: it hands the request on
  with the accepted object in \<^verbatim>\<open>req.body\<close> (which \<open>body\<close> reads), or passes its error to the
  error-handling middleware.
\<close>

definition json_parser :: handler where
  "json_parser c r products =
     (case payload r of
        Accepted b \<Rightarrow> (Next r, products)
      | Refused f \<Rightarrow> (Failed (ParserError f), products))"

text \<open>\<^verbatim>\<open>authenticate\<close> (lines 40-46).\<close>

definition authenticate :: handler where
  "authenticate c r products =
     (let apiKey = x_api_key r in
      if apiKey = None \<or> apiKey = Some [] \<or> apiKey \<noteq> API_KEY c
      then (Responded (json_response 401 (JObj [(''message'', JStr ''Unauthorized'')])), products)
      else (Next r, products))"

text \<open>\<^verbatim>\<open>validateProduct\<close> (lines 49-65).\<close>

definition validateProduct :: handler where
  "validateProduct c r products =
     (let name = get_prop (body r) ''name'';
          price = get_prop (body r) ''price'';
          category = get_prop (body r) ''category''
      in if \<not> truthy name \<or> \<not> truthy price \<or> \<not> truthy category
         then (Failed (ValidationError ''Name, price and category are required''), products)
         else (case price of
                 Some (JNum n) \<Rightarrow>
                   if n \<le> 0
                   then (Failed (ValidationError ''Price must be greater than 0''), products)
                   else (Next r, products)
               | _ \<Rightarrow> (Failed (ValidationError ''Price must be a number''), products)))"

text \<open>
  The error-handling middleware (lines 174-184); \<open>code\<close> is its local \<^verbatim>\<open>statusCode\<close>,
  that is \<^verbatim>\<open>err.statusCode || 500\<close>. What it writes to the console is not part of the model.
\<close>

definition error_handler :: "ctx \<Rightarrow> error \<Rightarrow> response" where
  "error_handler c err =
     (let code = (case statusCode err of None \<Rightarrow> 500 | Some n \<Rightarrow> if n = 0 then 500 else n)
      in json_response code
           (JObj [(''error'',
              JObj [(''message'', JStr (message err)),
                    (''status'', JNum (of_nat code)),
                    (''timestamp'', JStr (now c))])]))"

section \<open>Helpers of the route handlers\<close>

text \<open>
  \<^verbatim>\<open>Array.prototype.slice(start, stop)\<close>: a negative index counts from the end, and both
  indices are clamped to the array.
\<close>

definition slice :: "'a list \<Rightarrow> int \<Rightarrow> int \<Rightarrow> 'a list" where
  "slice xs start stop =
     (let len = int (length xs);
          k = (if start < 0 then max (len + start) 0 else min start len);
          final = (if stop < 0 then max (len + stop) 0 else min stop len)
      in take (nat (final - k)) (drop (nat k) xs))"

text \<open>
  \<^verbatim>\<open>Math.ceil(length / limit)\<close> as \<^verbatim>\<open>res.json\<close> writes it: a division by zero gives
  \<^verbatim>\<open>Infinity\<close> or \<^verbatim>\<open>NaN\<close>, which JSON serialises as null. The handler calls it with the
  length of an array (below \<open>2\<^sup>3\<^sup>2\<close>) and a safe integer, for which the rounded quotient of the
  code has the ceiling of the exact quotient.
\<close>

definition ceil_ratio :: "nat \<Rightarrow> int \<Rightarrow> json" where
  "ceil_ratio len limit =
     (if limit = 0 then JNull else JNum (of_int \<lceil>(of_nat len :: rat) / of_int limit\<rceil>))"

text \<open>\<^verbatim>\<open>Array.prototype.findIndex\<close>, with \<open>None\<close> for the result -1.\<close>

fun findIndex :: "('a \<Rightarrow> bool) \<Rightarrow> 'a list \<Rightarrow> nat option" where
  "findIndex P [] = None"
| "findIndex P (x # xs) =
     (if P x then Some 0 else (case findIndex P xs of None \<Rightarrow> None | Some i \<Rightarrow> Some (Suc i)))"

text \<open>
  \<^verbatim>\<open>ToString\<close> of a JSON value, as a property key needs it. Numbers go through the engine's
  conversion \<open>f\<close>. An array joins its elements with commas, null elements as the empty string.
  A parsed object is \<^verbatim>\<open>[object Object]\<close>, unless an own property \<^verbatim>\<open>toString\<close> hides the
  inherited function: then no conversion to a primitive exists and the engine throws.
\<close>

fun to_string :: "(rat \<Rightarrow> string) \<Rightarrow> json \<Rightarrow> error + string"
  and join_elements :: "(rat \<Rightarrow> string) \<Rightarrow> json list \<Rightarrow> error + string" where
  "to_string f JNull = Inr ''null''"
| "to_string f (JBool b) = Inr (if b then ''true'' else ''false'')"
| "to_string f (JNum n) = Inr (f n)"
| "to_string f (JStr s) = Inr s"
| "to_string f (JArr xs) = join_elements f xs"
| "to_string f (JObj kvs) =
     (if ''toString'' \<in> set (map fst kvs)
      then Inl (TypeError ''Cannot convert object to primitive value'')
      else Inr ''[object Object]'')"
| "join_elements f [] = Inr []"
| "join_elements f (x # xs) =
     (case (if x = JNull then Inr [] else to_string f x) of
        Inl e \<Rightarrow> Inl e
      | Inr s \<Rightarrow>
          if xs = [] then Inr s
          else (case join_elements f xs of Inl e \<Rightarrow> Inl e | Inr t \<Rightarrow> Inr (s @ '','' @ t)))"

definition to_property_key :: "(rat \<Rightarrow> string) \<Rightarrow> json option \<Rightarrow> error + string" where
  "to_property_key f v = (case v of None \<Rightarrow> Inr ''undefined'' | Some j \<Rightarrow> to_string f j)"

text \<open>
  The accumulator of the statistics is a plain object, so a key that it does not own is looked
  up in \<^verbatim>\<open>Object.prototype\<close>. \<open>inherited k\<close> is the text that such an inherited member gives
  when 1 is added to it: the source text of a built-in function, or \<^verbatim>\<open>[object Object]\<close> for
  the prototype itself behind \<^verbatim>\<open>__proto__\<close>.
\<close>

definition inherited :: "string \<Rightarrow> string option" where
  "inherited k =
     (if k = ''__proto__'' then Some ''[object Object]''
      else if k = ''constructor'' then Some ''function Object() { [native code] }''
      else if k \<in> set [''__defineGetter__'', ''__defineSetter__'', ''hasOwnProperty'',
                        ''__lookupGetter__'', ''__lookupSetter__'', ''isPrototypeOf'',
                        ''propertyIsEnumerable'', ''toString'', ''valueOf'', ''toLocaleString'']
      then Some (''function '' @ k @ ''() { [native code] }'')
      else None)"

text \<open>
  The callback of the reduction (lines 162-165):
  \<^verbatim>\<open>acc[product.category] = (acc[product.category] || 0) + 1\<close>. An own count is incremented; an
  own string (left by an inherited member) gets the text 1 appended; an assignment to
  \<^verbatim>\<open>__proto__\<close> of a string is ignored by the setter and creates no own property.
\<close>

definition count_category :: "(rat \<Rightarrow> string) \<Rightarrow> obj \<Rightarrow> obj \<Rightarrow> error + obj" where
  "count_category f acc product =
     (case to_property_key f (get_prop product ''category'') of
        Inl e \<Rightarrow> Inl e
      | Inr k \<Rightarrow>
          Inr (case get_prop acc k of
                 Some (JNum n) \<Rightarrow> set_prop k (JNum (n + 1)) acc
               | Some (JStr s) \<Rightarrow> set_prop k (if s = [] then JNum 1 else JStr (s @ ''1'')) acc
               | Some v \<Rightarrow> acc
               | None \<Rightarrow>
                   (case inherited k of
                      None \<Rightarrow> set_prop k (JNum 1) acc
                    | Some t \<Rightarrow> if k = ''__proto__'' then acc else set_prop k (JStr (t @ ''1'')) acc)))"

text \<open>\<^verbatim>\<open>Array.prototype.reduce\<close> with a callback that may throw.\<close>

fun reduce_throwing :: "('b \<Rightarrow> 'a \<Rightarrow> error + 'b) \<Rightarrow> 'a list \<Rightarrow> 'b \<Rightarrow> error + 'b" where
  "reduce_throwing f [] acc = Inr acc"
| "reduce_throwing f (x # xs) acc =
     (case f acc x of Inl e \<Rightarrow> Inl e | Inr acc' \<Rightarrow> reduce_throwing f xs acc')"

section \<open>Route handlers\<close>

text \<open>\<^verbatim>\<open>req.params.id\<close>.\<close>

definition param_id :: "request \<Rightarrow> string option" where
  "param_id r = map_of (params r) ''id''"

text \<open>The logger (lines 14-17); its console output is not part of the model.\<close>

definition request_logger :: handler where
  "request_logger c r products = (Next r, products)"

text \<open>\<^verbatim>\<open>GET /\<close> (lines 68-70).\<close>

definition root :: handler where
  "root c r products =
     (Responded \<lparr>status = 200, content = TextBody ''Products API is running''\<rparr>, products)"

text \<open>The predicate of the category filter (line 79).\<close>

definition category_matches :: "string \<Rightarrow> obj \<Rightarrow> error + bool" where
  "category_matches category p =
     (case call_toLowerCase ''p.category'' (get_prop p ''category'') of
        Inl e \<Rightarrow> Inl e
      | Inr s \<Rightarrow> Inr (s = toLowerCase category))"

text \<open>
  \<^verbatim>\<open>GET /api/products\<close> (lines 73-93). \<open>page\<close> and \<open>limit\<close> are safe integers, so the
  coercions of the code and \<^verbatim>\<open>parseInt(page)\<close> are exact. The code rounds the two products
  when they exceed \<open>2\<^sup>5\<^sup>3\<close>; a rounded index lies beyond the end of the array as the exact one
  does, so \<open>slice\<close> cuts the same window.
\<close>

definition list_products :: handler where
  "list_products c r products =
     (let category = q_category (query r);
          page = (case q_page (query r) of None \<Rightarrow> 1 | Some n \<Rightarrow> int_of n);
          limit = (case q_limit (query r) of None \<Rightarrow> 10 | Some n \<Rightarrow> int_of n);
          filtered = (case category of
                        None \<Rightarrow> Inr products
                      | Some cat \<Rightarrow>
                          if cat = [] then Inr products
                          else filter_throwing (category_matches cat) products)
      in case filtered of
           Inl e \<Rightarrow> (Failed e, products)
         | Inr result \<Rightarrow>
             (let startIndex = (page - 1) * limit;
                  endIndex = page * limit;
                  paginatedResults = slice result startIndex endIndex
              in (Responded (json_response 200
                    (JObj [(''data'', JArr (map JObj paginatedResults)),
                           (''currentPage'', JNum (of_int page)),
                           (''totalPages'', ceil_ratio (length result) limit),
                           (''totalItems'', JNum (of_nat (length result)))])),
                  products)))"

text \<open>\<^verbatim>\<open>GET /api/products/:id\<close> (lines 96-102).\<close>

definition get_product :: handler where
  "get_product c r products =
     (case find (\<lambda>p. strict_eq_str (get_prop p ''id'') (param_id r)) products of
        None \<Rightarrow> (Failed (NotFoundError ''Product not found''), products)
      | Some product \<Rightarrow> (Responded (json_response 200 (JObj product)), products))"

text \<open>
  \<^verbatim>\<open>POST /api/products\<close> (lines 105-113). The object literal writes the generated id first,
  then the properties of the body, then \<^verbatim>\<open>inStock: req.body.inStock || true\<close>.
\<close>

definition create_product :: handler where
  "create_product c r products =
     (let inStock = (case get_prop (body r) ''inStock'' of
                       None \<Rightarrow> JBool True
                     | Some v \<Rightarrow> if truthy (Some v) then v else JBool True);
          product = set_prop ''inStock'' inStock (spread [(''id'', JStr (uuid c))] (body r))
      in (Responded (json_response 201 (JObj product)), products @ [product]))"

text \<open>
  \<^verbatim>\<open>PUT /api/products/:id\<close> (lines 116-129). The last property of the literal writes the old
  id back; a property holding undefined is read as undefined and not serialised, so it is
  modelled as absent.
\<close>

definition update_product :: handler where
  "update_product c r products =
     (case findIndex (\<lambda>p. strict_eq_str (get_prop p ''id'') (param_id r)) products of
        None \<Rightarrow> (Failed (NotFoundError ''Product not found''), products)
      | Some index \<Rightarrow>
          (let old = products ! index;
               merged = spread (spread [] old) (body r);
               updated = (case get_prop old ''id'' of
                            None \<Rightarrow> AList.delete ''id'' merged
                          | Some v \<Rightarrow> set_prop ''id'' v merged)
           in (Responded (json_response 200 (JObj updated)), products[index := updated])))"

text \<open>\<^verbatim>\<open>DELETE /api/products/:id\<close> (lines 132-141).\<close>

definition delete_product :: handler where
  "delete_product c r products =
     (let initialLength = length products;
          remaining = filter (\<lambda>p. \<not> strict_eq_str (get_prop p ''id'') (param_id r)) products
      in if length remaining = initialLength
         then (Failed (NotFoundError ''Product not found''), remaining)
         else (Responded \<lparr>status = 204, content = NoBody\<rparr>, remaining))"

text \<open>
  The predicate of the search (lines 151-152): the description is read only when the name does
  not contain the query.
\<close>

definition search_matches :: "string \<Rightarrow> obj \<Rightarrow> error + bool" where
  "search_matches q p =
     (case call_toLowerCase ''p.name'' (get_prop p ''name'') of
        Inl e \<Rightarrow> Inl e
      | Inr name \<Rightarrow>
          if str_includes name (toLowerCase q) then Inr True
          else (case call_toLowerCase ''p.description'' (get_prop p ''description'') of
                  Inl e \<Rightarrow> Inl e
                | Inr description \<Rightarrow> Inr (str_includes description (toLowerCase q))))"

text \<open>\<^verbatim>\<open>GET /api/products/search\<close> (lines 144-156).\<close>

definition search_products :: handler where
  "search_products c r products =
     (case q_q (query r) of
        None \<Rightarrow> (Failed (ValidationError ''Search query required''), products)
      | Some q \<Rightarrow>
          if q = [] then (Failed (ValidationError ''Search query required''), products)
          else (case filter_throwing (search_matches q) products of
                  Inl e \<Rightarrow> (Failed e, products)
                | Inr results \<Rightarrow>
                    (Responded (json_response 200 (JArr (map JObj results))), products)))"

text \<open>\<^verbatim>\<open>GET /api/products/stats\<close> (lines 159-171).\<close>

definition product_stats :: handler where
  "product_stats c r products =
     (case reduce_throwing (count_category (number_to_string c)) products [] of
        Inl e \<Rightarrow> (Failed e, products)
      | Inr byCategory \<Rightarrow>
          (Responded (json_response 200
             (JObj [(''totalProducts'', JNum (of_nat (length products))),
                    (''byCategory'', JObj byCategory),
                    (''inStock'',
                       JNum (of_nat (length (filter (\<lambda>p. truthy (get_prop p ''inStock'')) products)))),
                    (''outOfStock'',
                       JNum (of_nat (length (filter (\<lambda>p. \<not> truthy (get_prop p ''inStock'')) products))))])),
           products))"

section \<open>The router\<close>

text \<open>
  A route path is a list of segments, literal or a named parameter. Literal segments match
  without regard to case (the default of the framework); a parameter matches any one segment.
\<close>

datatype seg = Lit string | Param string

fun match_path :: "seg list \<Rightarrow> string list \<Rightarrow> (string \<times> string) list option" where
  "match_path [] [] = Some []"
| "match_path (Lit l # ps) (x # xs) =
     (if toLowerCase x = toLowerCase l then match_path ps xs else None)"
| "match_path (Param n # ps) (x # xs) =
     (if x = [] then None
      else (case match_path ps xs of None \<Rightarrow> None | Some kvs \<Rightarrow> Some ((n, x) # kvs)))"
| "match_path ps xs = None"

text \<open>
  A layer of the application's stack: a middleware mounted with \<^verbatim>\<open>app.use\<close>, which sees every
  request, or a route with its HTTP verb, its path and its chain of handlers.
\<close>

datatype layer =
    Use handler
  | Route http_method "seg list" "handler list"

fun layer_handlers :: "layer \<Rightarrow> handler list" where
  "layer_handlers (Use h) = [h]"
| "layer_handlers (Route m pat hs) = hs"

text \<open>The handlers of one route run in order until one responds or fails.\<close>

fun run_chain :: "handler list \<Rightarrow> handler" where
  "run_chain [] c r products = (Next r, products)"
| "run_chain (h # hs) c r products =
     (case h c r products of
        (Next r', products') \<Rightarrow> run_chain hs c r' products'
      | (Responded resp, products') \<Rightarrow> (Responded resp, products')
      | (Failed e, products') \<Rightarrow> (Failed e, products'))"

text \<open>
  The answer of the framework when no layer responds: status 404 with an HTML page naming the
  verb and the path.
\<close>

fun http_method_name :: "http_method \<Rightarrow> string" where
  "http_method_name GET = ''GET''"
| "http_method_name POST = ''POST''"
| "http_method_name PUT = ''PUT''"
| "http_method_name DELETE = ''DELETE''"

definition path_text :: "string list \<Rightarrow> string" where
  "path_text segs = (if segs = [] then ''/'' else concat (map (\<lambda>s. ''/'' @ s) segs))"

definition default_not_found :: "request \<Rightarrow> response" where
  "default_not_found r =
     \<lparr>status = 404, content = HtmlBody (''Cannot '' @ http_method_name (http_method r) @ '' '' @ path_text (path r))\<rparr>"

text \<open>
  The layers are tried in the order of their registration. The first one that matches the
  request runs; a response ends the request, a failure goes to the error-handling middleware,
  and only \<^verbatim>\<open>next()\<close> lets a later layer see the request.
\<close>

fun handlers_of :: "layer \<Rightarrow> request \<Rightarrow> (handler list \<times> request) option" where
  "handlers_of (Use h) r = Some ([h], r\<lparr>params := []\<rparr>)"
| "handlers_of (Route m pat hs) r =
     (if http_method r = m
      then (case match_path pat (path r) of
              None \<Rightarrow> None
            | Some ps \<Rightarrow> Some (hs, r\<lparr>params := ps\<rparr>))
      else None)"

fun dispatch :: "layer list \<Rightarrow> ctx \<Rightarrow> request \<Rightarrow> obj list \<Rightarrow> response \<times> obj list" where
  "dispatch [] c r products = (default_not_found r, products)"
| "dispatch (l # ls) c r products =
     (case handlers_of l r of
        None \<Rightarrow> dispatch ls c r products
      | Some (hs, r') \<Rightarrow>
          (case run_chain hs c r' products of
             (Next r'', products') \<Rightarrow> dispatch ls c r'' products'
           | (Responded resp, products') \<Rightarrow> (resp, products')
           | (Failed e, products') \<Rightarrow> (error_handler c e, products')))"

text \<open>The stack of \<^verbatim>\<open>server.js\<close>, in the order of the calls that register it.\<close>

definition products_path :: "seg list" where
  "products_path = [Lit ''api'', Lit ''products'']"

definition product_id_path :: "seg list" where
  "product_id_path = [Lit ''api'', Lit ''products'', Param ''id'']"

definition layers :: "layer list" where
  "layers =
     [Use json_parser,
      Use request_logger,
      Route GET [] [root],
      Route GET products_path [list_products],
      Route GET product_id_path [get_product],
      Route POST products_path [authenticate, validateProduct, create_product],
      Route PUT product_id_path [authenticate, validateProduct, update_product],
      Route DELETE product_id_path [authenticate, delete_product],
      Route GET [Lit ''api'', Lit ''products'', Lit ''search''] [search_products],
      Route GET [Lit ''api'', Lit ''products'', Lit ''stats''] [product_stats]]"

definition app :: "ctx \<Rightarrow> request \<Rightarrow> obj list \<Rightarrow> response \<times> obj list" where
  "app = dispatch layers"

section \<open>Notions used in the properties\<close>

text \<open>The requests whose body the parser accepts.\<close>

definition parsed :: "request \<Rightarrow> bool" where
  "parsed r = (case payload r of Accepted b \<Rightarrow> True | Refused f \<Rightarrow> False)"

text \<open>The requests that the three protected routes answer: create, update and delete.\<close>

definition mutating_route :: "request \<Rightarrow> bool" where
  "mutating_route r =
     (http_method r = POST \<and> match_path products_path (path r) \<noteq> None \<or>
      (http_method r = PUT \<or> http_method r = DELETE) \<and> match_path product_id_path (path r) \<noteq> None)"

text \<open>The response of \<open>authenticate\<close> to a request without the right key.\<close>

definition unauthorized :: response where
  "unauthorized = json_response 401 (JObj [(''message'', JStr ''Unauthorized'')])"

text \<open>
  The error shape of the specification: a JSON object whose property \<^verbatim>\<open>error\<close> is an object
  with a text \<^verbatim>\<open>message\<close>, a \<^verbatim>\<open>status\<close> equal to the HTTP status of the response, and a
  text \<^verbatim>\<open>timestamp\<close>.
\<close>

definition error_shaped :: "response \<Rightarrow> bool" where
  "error_shaped resp =
     (case content resp of
        JsonBody (JObj kvs) \<Rightarrow>
          (case get_prop kvs ''error'' of
             Some (JObj e) \<Rightarrow>
               (case (get_prop e ''message'', get_prop e ''status'', get_prop e ''timestamp'') of
                  (Some (JStr m), Some (JNum n), Some (JStr t)) \<Rightarrow> n = of_nat (status resp)
                | _ \<Rightarrow> False)
           | _ \<Rightarrow> False)
      | _ \<Rightarrow> False)"

text \<open>
  The payloads that \<open>validateProduct\<close> lets through: name, price and category are truthy (not
  absent, null, false, 0 or the empty string) and the price is a number above 0.
\<close>

definition accepted :: "obj \<Rightarrow> bool" where
  "accepted b =
     (truthy (get_prop b ''name'') \<and> truthy (get_prop b ''category'') \<and>
      (case get_prop b ''price'' of Some (JNum n) \<Rightarrow> 0 < n | _ \<Rightarrow> False))"

text \<open>
  The payloads that the specification's validation contract lets through, in its words: name,
  price and category are not absent, the price is numeric and above 0.
\<close>

definition spec_accepted :: "obj \<Rightarrow> bool" where
  "spec_accepted b =
     (get_prop b ''name'' \<noteq> None \<and> get_prop b ''category'' \<noteq> None \<and>
      (case get_prop b ''price'' of Some (JNum n) \<Rightarrow> 0 < n | _ \<Rightarrow> False))"

text \<open>A product whose text property \<open>k\<close> equals, or contains, a text without regard to case.\<close>

definition text_equals :: "string \<Rightarrow> string \<Rightarrow> obj \<Rightarrow> bool" where
  "text_equals k t p =
     (case get_prop p k of Some (JStr s) \<Rightarrow> toLowerCase s = toLowerCase t | _ \<Rightarrow> False)"

definition text_contains :: "string \<Rightarrow> string \<Rightarrow> obj \<Rightarrow> bool" where
  "text_contains k t p =
     (case get_prop p k of Some (JStr s) \<Rightarrow> str_includes (toLowerCase s) (toLowerCase t) | _ \<Rightarrow> False)"

definition has_text :: "string \<Rightarrow> obj \<Rightarrow> bool" where
  "has_text k p = (case get_prop p k of Some (JStr s) \<Rightarrow> True | _ \<Rightarrow> False)"

text \<open>
  The products that a listing selects according to the specification: those matching the
  category when one is given, all of them when it is absent.
\<close>

definition spec_selected :: "string option \<Rightarrow> obj list \<Rightarrow> obj list" where
  "spec_selected category products =
     (case category of
        None \<Rightarrow> products
      | Some cat \<Rightarrow> filter (text_equals ''category'' cat) products)"

text \<open>
  The products that the list handler selects: an empty category parameter filters nothing.
\<close>

definition selected :: "string option \<Rightarrow> obj list \<Rightarrow> obj list" where
  "selected category products =
     (case category of
        None \<Rightarrow> products
      | Some cat \<Rightarrow> if cat = [] then products else filter (text_equals ''category'' cat) products)"

text \<open>The page and the limit of a listing, with their defaults 1 and 10.\<close>

definition page_of :: "query \<Rightarrow> int" where
  "page_of qr = (case q_page qr of None \<Rightarrow> 1 | Some n \<Rightarrow> int_of n)"

definition limit_of :: "query \<Rightarrow> int" where
  "limit_of qr = (case q_limit qr of None \<Rightarrow> 10 | Some n \<Rightarrow> int_of n)"

text \<open>The page of a listing: the elements with index from \<open>(page - 1) * limit\<close> up to \<open>page * limit\<close>.\<close>

definition window :: "int \<Rightarrow> int \<Rightarrow> 'a list \<Rightarrow> 'a list" where
  "window page limit xs =
     take (nat (page * limit) - nat ((page - 1) * limit)) (drop (nat ((page - 1) * limit)) xs)"

text \<open>The error of the search on a product without description: a call on undefined.\<close>

definition undefined_description :: error where
  "undefined_description =
     TypeError ''Cannot read properties of undefined (reading 'toLowerCase')''"

section \<open>Example inputs\<close>

definition example_ctx :: ctx where
  "example_ctx =
     \<lparr>API_KEY = Some ''s3cret'', uuid = ''33333333-3333-4333-8333-333333333333'',
      now = ''2024-01-01T00:00:00.000Z'', number_to_string = (\<lambda>n. ''0'')\<rparr>"

definition id1 :: string where
  "id1 = ''11111111-1111-4111-8111-111111111111''"

definition id2 :: string where
  "id2 = ''22222222-2222-4222-8222-222222222222''"

definition seeded :: "obj list" where
  "seeded = initial_products id1 id2"

definition no_query :: query where
  "no_query = \<lparr>q_category = None, q_page = None, q_limit = None, q_q = None\<rparr>"

text \<open>\<^verbatim>\<open>GET /api/products/search?q=laptop\<close>\<close>

definition search_laptop :: request where
  "search_laptop =
     \<lparr>http_method = GET, path = [''api'', ''products'', ''search''], params = [],
      query = no_query\<lparr>q_q := Some ''laptop''\<rparr>, x_api_key = None, payload = Accepted []\<rparr>"

text \<open>The same request for another query text.\<close>

definition search_for :: "string \<Rightarrow> request" where
  "search_for q = search_laptop\<lparr>query := no_query\<lparr>q_q := Some q\<rparr>\<rparr>"

text \<open>\<^verbatim>\<open>GET /api/products/stats\<close>\<close>

definition get_stats :: request where
  "get_stats =
     \<lparr>http_method = GET, path = [''api'', ''products'', ''stats''], params = [],
      query = no_query, x_api_key = None, payload = Accepted []\<rparr>"

text \<open>\<^verbatim>\<open>POST /api/products\<close> with the right key and a body \<open>b\<close>.\<close>

definition create_with :: "obj \<Rightarrow> request" where
  "create_with b =
     \<lparr>http_method = POST, path = [''api'', ''products''], params = [],
      query = no_query, x_api_key = Some ''s3cret'', payload = Accepted b\<rparr>"

text \<open>
  \<^verbatim>\<open>POST /api/products\<close> without a key, with a body that the parser refuses on the ground
  \<open>f\<close>.
\<close>

definition keyless_create_refused :: "refusal \<Rightarrow> request" where
  "keyless_create_refused f =
     \<lparr>http_method = POST, path = [''api'', ''products''], params = [],
      query = no_query, x_api_key = None, payload = Refused f\<rparr>"

text \<open>\<^verbatim>\<open>PUT /api/products/:id\<close> with the right key, for the first seeded product.\<close>

definition update_with :: "obj \<Rightarrow> request" where
  "update_with b =
     \<lparr>http_method = PUT, path = [''api'', ''products'', id1], params = [],
      query = no_query, x_api_key = Some ''s3cret'', payload = Accepted b\<rparr>"

text \<open>\<^verbatim>\<open>GET /api/products\<close> with a query.\<close>

definition list_with :: "query \<Rightarrow> request" where
  "list_with qr =
     \<lparr>http_method = GET, path = [''api'', ''products''], params = [],
      query = qr, x_api_key = None, payload = Accepted []\<rparr>"

definition mouse :: obj where
  "mouse = [(''name'', JStr ''Mouse''), (''price'', JNum 25), (''category'', JStr ''Electronics'')]"

text \<open>A product stored without a description, as a create request that omits it leaves it.\<close>

definition bare_laptop :: obj where
  "bare_laptop =
     [(''id'', JStr id1), (''name'', JStr ''Laptop''), (''price'', JNum 999),
      (''category'', JStr ''Electronics''), (''inStock'', JBool True)]"

section \<open>Objects, arrays and paths\<close>

lemma str_includes_sublist: "str_includes s sub \<longleftrightarrow> sublist sub s"
  by (induction s) (simp_all add: sublist_Cons_right)

lemma window_take_drop:
  "0 < page \<Longrightarrow> 0 < limit \<Longrightarrow>
   window page limit xs = take (nat limit) (drop (nat ((page - 1) * limit)) xs)"
proof -
  assume "0 < page" and "0 < limit"
  then have "0 \<le> (page - 1) * limit" by simp
  then have "nat (page * limit) - nat ((page - 1) * limit) = nat (page * limit - (page - 1) * limit)"
    by (simp add: nat_diff_distrib)
  also have "page * limit - (page - 1) * limit = limit"
    by (simp add: algebra_simps)
  finally show ?thesis by (simp add: window_def)
qed

lemma get_prop_set_prop:
  "get_prop (set_prop k v ob) k' = (if k' = k then Some v else get_prop ob k')"
  by (simp add: get_prop_def set_prop_def update_conv')

lemma get_prop_fold_copy:
  "get_prop (fold (copy_prop src) ks target) k =
     (if k \<in> set ks then (case get_prop src k of None \<Rightarrow> get_prop target k | Some v \<Rightarrow> Some v)
      else get_prop target k)"
  by (induction ks arbitrary: target)
     (auto simp: copy_prop_def get_prop_set_prop split: option.splits)

lemma get_prop_None_iff: "get_prop ob k = None \<longleftrightarrow> k \<notin> set (own_keys ob)"
  by (simp add: get_prop_def own_keys_def map_of_eq_None_iff)

lemma get_prop_spread:
  "get_prop (spread target src) k =
     (case get_prop src k of None \<Rightarrow> get_prop target k | Some v \<Rightarrow> Some v)"
  using get_prop_None_iff [of src k]
  by (auto simp: spread_def get_prop_fold_copy split: option.splits)

lemma get_prop_Nil: "get_prop [] k = None"
  by (simp add: get_prop_def)

lemma findIndex_first:
  "i < length xs \<Longrightarrow> P (xs ! i) \<Longrightarrow> \<forall>j<i. \<not> P (xs ! j) \<Longrightarrow> findIndex P xs = Some i"
proof (induction xs arbitrary: i)
  case Nil
  then show ?case by simp
next
  case (Cons x xs)
  show ?case
  proof (cases i)
    case 0
    with Cons.prems show ?thesis by simp
  next
    case (Suc n)
    with Cons.prems have "\<not> P x" by auto
    moreover have "findIndex P xs = Some n"
      using Cons.prems Suc by (intro Cons.IH) auto
    ultimately show ?thesis using Suc by simp
  qed
qed

lemma match_products_path:
  "match_path products_path p \<noteq> None \<Longrightarrow> \<exists>a b. p = [a, b] \<and> match_path products_path p = Some []"
proof -
  assume m: "match_path products_path p \<noteq> None"
  then obtain a p1 where p: "p = a # p1"
    by (cases p) (auto simp: products_path_def)
  with m obtain b p2 where p1: "p1 = b # p2"
    by (cases p1) (auto simp: products_path_def split: if_splits)
  with m p have "p2 = []"
    by (cases p2) (auto simp: products_path_def split: if_splits)
  with m p p1 show ?thesis
    by (auto simp: products_path_def split: if_splits)
qed

lemma filter_throwing_total:
  "(\<And>x. x \<in> set xs \<Longrightarrow> f x = Inr (g x)) \<Longrightarrow> filter_throwing f xs = Inr (filter g xs)"
  by (induction xs) simp_all

lemma filter_throwing_fails:
  "x \<in> set xs \<Longrightarrow> f x = Inl e \<Longrightarrow>
   \<exists>e'. filter_throwing f xs = Inl e' \<and> (\<exists>y\<in>set xs. f y = Inl e')"
proof (induction xs)
  case Nil
  then show ?case by simp
next
  case (Cons a xs)
  show ?case
  proof (cases "f a")
    case (Inl e1)
    then show ?thesis by auto
  next
    case (Inr b)
    with Cons.prems have "x \<in> set xs" by auto
    from Cons.IH [OF this Cons.prems(2)] Inr show ?thesis by auto
  qed
qed

lemma slice_nonneg:
  assumes "0 \<le> a" and "a \<le> b"
  shows "slice xs a b = take (nat b - nat a) (drop (nat a) xs)"
proof (cases "a < int (length xs)")
  case False
  with assms show ?thesis by (simp add: slice_def Let_def min_def)
next
  case True
  show ?thesis
  proof (cases "b \<le> int (length xs)")
    case True
    with assms \<open>a < int (length xs)\<close> show ?thesis
      by (simp add: slice_def Let_def min_def nat_diff_distrib)
  next
    case False
    with assms \<open>a < int (length xs)\<close> show ?thesis
      by (simp add: slice_def Let_def min_def nat_diff_distrib)
  qed
qed

lemma slice_window:
  assumes "0 < page" and "0 < limit"
  shows "slice xs ((page - 1) * limit) (page * limit) = window page limit xs"
proof -
  have "0 \<le> (page - 1) * limit" using assms by simp
  moreover have "(page - 1) * limit \<le> page * limit" using assms by (simp add: mult_right_mono)
  ultimately show ?thesis
    by (simp add: slice_nonneg window_def)
qed

section \<open>Middleware and dispatch\<close>

lemma body_params [simp]: "body (r\<lparr>params := ps\<rparr>) = body r"
  by (simp add: body_def)

lemma parsed_params [simp]: "parsed (r\<lparr>params := ps\<rparr>) = parsed r"
  by (simp add: parsed_def)

lemma json_parser_accepts: "parsed r \<Longrightarrow> json_parser c r products = (Next r, products)"
  by (simp add: json_parser_def parsed_def split: payload.splits)

lemma json_parser_refuses:
  "payload r = Refused f \<Longrightarrow> json_parser c r products = (Failed (ParserError f), products)"
  by (simp add: json_parser_def)

lemma handlers_of_Some:
  "handlers_of l r = Some (hs, r') \<Longrightarrow>
   hs = layer_handlers l \<and> http_method r' = http_method r \<and> path r' = path r \<and>
   payload r' = payload r"
  by (cases l) (auto split: if_splits option.splits)

lemma default_not_found_cong:
  "http_method r' = http_method r \<Longrightarrow> path r' = path r \<Longrightarrow>
   default_not_found r' = default_not_found r"
  by (simp add: default_not_found_def)

text \<open>
  What a chain of handlers, and a stack of layers, can answer, from what each handler can: \<open>P\<close>
  holds of the responses that handlers send, \<open>Q\<close> of the payload and the errors with which they
  fail, and a handler that passes the request on keeps its verb, path and payload.
\<close>

lemma run_chain_outcome:
  assumes "\<And>h c r s resp s'. h \<in> set hs \<Longrightarrow> h c r s = (Responded resp, s') \<Longrightarrow> P resp"
    and "\<And>h c r s r' s'. h \<in> set hs \<Longrightarrow> h c r s = (Next r', s') \<Longrightarrow>
           http_method r' = http_method r \<and> path r' = path r \<and> payload r' = payload r"
    and "\<And>h c r s e s'. h \<in> set hs \<Longrightarrow> h c r s = (Failed e, s') \<Longrightarrow> Q (payload r) e"
  shows "(run_chain hs c r s = (Responded resp, s') \<longrightarrow> P resp) \<and>
         (run_chain hs c r s = (Next r', s') \<longrightarrow>
            http_method r' = http_method r \<and> path r' = path r \<and> payload r' = payload r) \<and>
         (run_chain hs c r s = (Failed e, s') \<longrightarrow> Q (payload r) e)"
  using assms
proof (induction hs arbitrary: r s)
  case Nil
  then show ?case by simp
next
  case (Cons h hs)
  obtain out s1 where h: "h c r s = (out, s1)" by (cases "h c r s")
  show ?case
  proof (cases out)
    case (Next r1)
    have keep: "http_method r1 = http_method r \<and> path r1 = path r \<and> payload r1 = payload r"
      using Cons.prems(2) [of h c r s r1 s1] h Next by simp
    have p1: "P x" if "g \<in> set hs" "g c0 r0 s0 = (Responded x, s0')" for g c0 r0 s0 x s0'
      using Cons.prems(1) [of g c0 r0 s0 x s0'] that by simp
    have p2: "http_method r0' = http_method r0 \<and> path r0' = path r0 \<and> payload r0' = payload r0"
      if "g \<in> set hs" "g c0 r0 s0 = (Next r0', s0')" for g c0 r0 s0 r0' s0'
      using Cons.prems(2) [of g c0 r0 s0 r0' s0'] that by simp
    have p3: "Q (payload r0) x" if "g \<in> set hs" "g c0 r0 s0 = (Failed x, s0')" for g c0 r0 s0 x s0'
      using Cons.prems(3) [of g c0 r0 s0 x s0'] that by simp
    have ih: "(run_chain hs c r1 s1 = (Responded resp, s') \<longrightarrow> P resp) \<and>
              (run_chain hs c r1 s1 = (Next r', s') \<longrightarrow>
                 http_method r' = http_method r1 \<and> path r' = path r1 \<and> payload r' = payload r1) \<and>
              (run_chain hs c r1 s1 = (Failed e, s') \<longrightarrow> Q (payload r1) e)"
      by (rule Cons.IH [OF p1 p2 p3])
    with keep h Next show ?thesis by simp
  next
    case (Responded x)
    with h Cons.prems(1) [of h c r s x s1] show ?thesis by auto
  next
    case (Failed x)
    with h Cons.prems(3) [of h c r s x s1] show ?thesis by auto
  qed
qed

lemma dispatch_response:
  assumes "\<And>l h c r s resp s'. l \<in> set ls \<Longrightarrow> h \<in> set (layer_handlers l) \<Longrightarrow>
             h c r s = (Responded resp, s') \<Longrightarrow> P resp"
    and "\<And>l h c r s r' s'. l \<in> set ls \<Longrightarrow> h \<in> set (layer_handlers l) \<Longrightarrow>
           h c r s = (Next r', s') \<Longrightarrow>
           http_method r' = http_method r \<and> path r' = path r \<and> payload r' = payload r"
    and "\<And>l h c r s e s'. l \<in> set ls \<Longrightarrow> h \<in> set (layer_handlers l) \<Longrightarrow>
           h c r s = (Failed e, s') \<Longrightarrow> Q (payload r) e"
    and "dispatch ls c r s = (resp, s')"
  shows "P resp \<or> (\<exists>e. resp = error_handler c e \<and> Q (payload r) e) \<or> resp = default_not_found r"
  using assms
proof (induction ls arbitrary: r s)
  case Nil
  then show ?case by simp
next
  case (Cons l ls)
  have p1: "P x" if "k \<in> set ls" "g \<in> set (layer_handlers k)" "g c0 r0 s0 = (Responded x, s0')"
    for k g c0 r0 s0 x s0'
    using Cons.prems(1) [of k g c0 r0 s0 x s0'] that by simp
  have p2: "http_method r0' = http_method r0 \<and> path r0' = path r0 \<and> payload r0' = payload r0"
    if "k \<in> set ls" "g \<in> set (layer_handlers k)" "g c0 r0 s0 = (Next r0', s0')"
    for k g c0 r0 s0 r0' s0'
    using Cons.prems(2) [of k g c0 r0 s0 r0' s0'] that by simp
  have p3: "Q (payload r0) x"
    if "k \<in> set ls" "g \<in> set (layer_handlers k)" "g c0 r0 s0 = (Failed x, s0')"
    for k g c0 r0 s0 x s0'
    using Cons.prems(3) [of k g c0 r0 s0 x s0'] that by simp
  have q1: "P x" if "g \<in> set (layer_handlers l)" "g c0 r0 s0 = (Responded x, s0')"
    for g c0 r0 s0 x s0'
    using Cons.prems(1) [of l g c0 r0 s0 x s0'] that by simp
  have q2: "http_method r0' = http_method r0 \<and> path r0' = path r0 \<and> payload r0' = payload r0"
    if "g \<in> set (layer_handlers l)" "g c0 r0 s0 = (Next r0', s0')"
    for g c0 r0 s0 r0' s0'
    using Cons.prems(2) [of l g c0 r0 s0 r0' s0'] that by simp
  have q3: "Q (payload r0) x" if "g \<in> set (layer_handlers l)" "g c0 r0 s0 = (Failed x, s0')"
    for g c0 r0 s0 x s0'
    using Cons.prems(3) [of l g c0 r0 s0 x s0'] that by simp
  show ?case
  proof (cases "handlers_of l r")
    case None
    with Cons.prems(4) have d: "dispatch ls c r s = (resp, s')" by simp
    show ?thesis
      by (rule Cons.IH [OF p1 p2 p3 d])
  next
    case (Some a)
    obtain hs r1 where a: "a = (hs, r1)" by (cases a)
    have hs: "hs = layer_handlers l"
      and keep1: "http_method r1 = http_method r" "path r1 = path r" "payload r1 = payload r"
      using handlers_of_Some [of l r hs r1] Some a by auto
    obtain out s1 where run: "run_chain hs c r1 s = (out, s1)" by (cases "run_chain hs c r1 s")
    have chain: "(run_chain hs c r1 s = (Responded x, s1) \<longrightarrow> P x) \<and>
                 (run_chain hs c r1 s = (Next r2, s1) \<longrightarrow>
                    http_method r2 = http_method r1 \<and> path r2 = path r1 \<and> payload r2 = payload r1) \<and>
                 (run_chain hs c r1 s = (Failed e, s1) \<longrightarrow> Q (payload r1) e)" for x r2 e
      unfolding hs by (rule run_chain_outcome [where P = P and Q = Q, OF q1 q2 q3])
    show ?thesis
    proof (cases out)
      case (Next r2)
      with Cons.prems(4) Some a run have d: "dispatch ls c r2 s1 = (resp, s')" by simp
      have keep2: "http_method r2 = http_method r" "path r2 = path r" "payload r2 = payload r"
        using chain [of _ r2] run Next keep1 by auto
      have "P resp \<or> (\<exists>e. resp = error_handler c e \<and> Q (payload r2) e) \<or>
            resp = default_not_found r2"
        by (rule Cons.IH [OF p1 p2 p3 d])
      moreover have "default_not_found r2 = default_not_found r"
        using keep2 by (intro default_not_found_cong)
      ultimately show ?thesis using keep2 by simp
    next
      case (Responded x)
      with Cons.prems(4) Some a run chain [of x] show ?thesis by simp
    next
      case (Failed x)
      with Cons.prems(4) Some a run chain [of _ _ x] keep1 show ?thesis by auto
    qed
  qed
qed

lemma error_handler_shaped: "error_shaped (error_handler c e)"
proof (cases e)
  case (ParserError f)
  then show ?thesis
    by (cases f) (simp_all add: error_handler_def error_shaped_def json_response_def get_prop_def)
qed (simp_all add: error_handler_def error_shaped_def json_response_def get_prop_def)

lemma error_handler_status:
  "status (error_handler c e) =
     (case e of
        ValidationError m \<Rightarrow> 400
      | NotFoundError m \<Rightarrow> 404
      | TypeError m \<Rightarrow> 500
      | ParserError f \<Rightarrow> refusal_status f)"
proof (cases e)
  case (ParserError f)
  then show ?thesis
    by (cases f) (simp_all add: error_handler_def json_response_def)
qed (simp_all add: error_handler_def json_response_def)

lemma handler_responses:
  "json_parser c r s = (Responded resp, s') \<Longrightarrow> status resp < 400"
  "request_logger c r s = (Responded resp, s') \<Longrightarrow> status resp < 400"
  "root c r s = (Responded resp, s') \<Longrightarrow> status resp < 400"
  "list_products c r s = (Responded resp, s') \<Longrightarrow> status resp < 400"
  "get_product c r s = (Responded resp, s') \<Longrightarrow> status resp < 400"
  "create_product c r s = (Responded resp, s') \<Longrightarrow> status resp < 400"
  "update_product c r s = (Responded resp, s') \<Longrightarrow> status resp < 400"
  "delete_product c r s = (Responded resp, s') \<Longrightarrow> status resp < 400"
  "search_products c r s = (Responded resp, s') \<Longrightarrow> status resp < 400"
  "product_stats c r s = (Responded resp, s') \<Longrightarrow> status resp < 400"
  "validateProduct c r s = (Responded resp, s') \<Longrightarrow> status resp < 400"
  "authenticate c r s = (Responded resp, s') \<Longrightarrow> resp = unauthorized"
  by (auto simp: json_parser_def request_logger_def root_def list_products_def get_product_def
        create_product_def update_product_def delete_product_def search_products_def
        product_stats_def validateProduct_def authenticate_def unauthorized_def json_response_def
        Let_def
      split: sum.splits option.splits if_splits json.splits payload.splits)

lemma handler_passes:
  "json_parser c r s = (Next r', s') \<Longrightarrow> r' = r"
  "request_logger c r s = (Next r', s') \<Longrightarrow> r' = r"
  "root c r s = (Next r', s') \<Longrightarrow> r' = r"
  "list_products c r s = (Next r', s') \<Longrightarrow> r' = r"
  "get_product c r s = (Next r', s') \<Longrightarrow> r' = r"
  "create_product c r s = (Next r', s') \<Longrightarrow> r' = r"
  "update_product c r s = (Next r', s') \<Longrightarrow> r' = r"
  "delete_product c r s = (Next r', s') \<Longrightarrow> r' = r"
  "search_products c r s = (Next r', s') \<Longrightarrow> r' = r"
  "product_stats c r s = (Next r', s') \<Longrightarrow> r' = r"
  "validateProduct c r s = (Next r', s') \<Longrightarrow> r' = r"
  "authenticate c r s = (Next r', s') \<Longrightarrow> r' = r"
  by (auto simp: json_parser_def request_logger_def root_def list_products_def get_product_def
        create_product_def update_product_def delete_product_def search_products_def
        product_stats_def validateProduct_def authenticate_def unauthorized_def json_response_def
        Let_def
      split: sum.splits option.splits if_splits json.splits payload.splits)

text \<open>Only the body parser fails with its own error, and only on a payload that it refuses.\<close>

lemma call_toLowerCase_error: "call_toLowerCase x v = Inl e \<Longrightarrow> \<exists>m. e = TypeError m"
  by (cases "(x, v)" rule: call_toLowerCase.cases) auto

lemma filter_throwing_error: "filter_throwing f xs = Inl e \<Longrightarrow> \<exists>x\<in>set xs. f x = Inl e"
  by (induction xs) (auto split: sum.splits)

lemma reduce_throwing_error:
  "reduce_throwing f xs acc = Inl e \<Longrightarrow> \<exists>x\<in>set xs. \<exists>a. f a x = Inl e"
  by (induction xs arbitrary: acc) (auto split: sum.splits)

lemma to_string_error:
  "(to_string g j = Inl e \<longrightarrow> (\<exists>m. e = TypeError m))"
  "(join_elements g js = Inl e \<longrightarrow> (\<exists>m. e = TypeError m))"
  by (induction g j and g js rule: to_string_join_elements.induct)
     (auto split: sum.splits if_splits)

lemma handler_failures:
  "json_parser c r s = (Failed e, s') \<Longrightarrow> e = ParserError f \<Longrightarrow> payload r = Refused f"
  "request_logger c r s = (Failed e, s') \<Longrightarrow> e \<noteq> ParserError f"
  "root c r s = (Failed e, s') \<Longrightarrow> e \<noteq> ParserError f"
  "get_product c r s = (Failed e, s') \<Longrightarrow> e \<noteq> ParserError f"
  "create_product c r s = (Failed e, s') \<Longrightarrow> e \<noteq> ParserError f"
  "update_product c r s = (Failed e, s') \<Longrightarrow> e \<noteq> ParserError f"
  "delete_product c r s = (Failed e, s') \<Longrightarrow> e \<noteq> ParserError f"
  "validateProduct c r s = (Failed e, s') \<Longrightarrow> e \<noteq> ParserError f"
  "authenticate c r s = (Failed e, s') \<Longrightarrow> e \<noteq> ParserError f"
  by (auto simp: json_parser_def request_logger_def root_def get_product_def
        create_product_def update_product_def delete_product_def
        validateProduct_def authenticate_def Let_def
      split: sum.splits option.splits if_splits json.splits payload.splits)

lemma list_products_failure: "list_products c r s = (Failed e, s') \<Longrightarrow> e \<noteq> ParserError f"
proof
  assume l: "list_products c r s = (Failed e, s')" and e: "e = ParserError f"
  then obtain cat where "filter_throwing (category_matches cat) s = Inl e"
    by (auto simp: list_products_def Let_def split: option.splits if_splits sum.splits)
  then obtain p where "category_matches cat p = Inl e"
    using filter_throwing_error by blast
  then show False
    using e by (auto simp: category_matches_def split: sum.splits dest: call_toLowerCase_error)
qed

lemma search_products_failure: "search_products c r s = (Failed e, s') \<Longrightarrow> e \<noteq> ParserError f"
proof
  assume l: "search_products c r s = (Failed e, s')" and e: "e = ParserError f"
  then obtain q where "filter_throwing (search_matches q) s = Inl e"
    by (auto simp: search_products_def split: option.splits if_splits sum.splits)
  then obtain p where "search_matches q p = Inl e"
    using filter_throwing_error by blast
  then show False
    using e
    by (auto simp: search_matches_def split: sum.splits if_splits dest: call_toLowerCase_error)
qed

lemma product_stats_failure: "product_stats c r s = (Failed e, s') \<Longrightarrow> e \<noteq> ParserError f"
proof
  assume l: "product_stats c r s = (Failed e, s')" and e: "e = ParserError f"
  then have "reduce_throwing (count_category (number_to_string c)) s [] = Inl e"
    by (auto simp: product_stats_def split: sum.splits)
  then obtain p a where "count_category (number_to_string c) a p = Inl e"
    using reduce_throwing_error [of "count_category (number_to_string c)" s "[]" e] by blast
  then show False
    using e to_string_error(1)
    by (auto simp: count_category_def to_property_key_def split: sum.splits option.splits)
qed

lemma authenticate_passes:
  "x_api_key r = Some k \<Longrightarrow> API_KEY c = Some k \<Longrightarrow> k \<noteq> [] \<Longrightarrow>
   authenticate c r products = (Next r, products)"
  by (simp add: authenticate_def)

lemma validateProduct_accepted:
  "accepted (body r) \<Longrightarrow> validateProduct c r products = (Next r, products)"
  by (auto simp: validateProduct_def accepted_def split: option.splits json.splits)

lemma validateProduct_rejected:
  "\<not> accepted (body r) \<Longrightarrow> \<exists>m. validateProduct c r products = (Failed (ValidationError m), products)"
  by (auto simp: validateProduct_def accepted_def split: option.splits json.splits)

lemma authenticate_rejects:
  "x_api_key r = None \<or> x_api_key r \<noteq> API_KEY c \<Longrightarrow>
   authenticate c r products = (Responded unauthorized, products)"
  by (auto simp: authenticate_def unauthorized_def)

section \<open>Routing of the search and statistics requests\<close>

text \<open>
  Whatever the store and the query, a \<^verbatim>\<open>GET\<close> request for \<^verbatim>\<open>/api/products/search\<close> or
  \<^verbatim>\<open>/api/products/stats\<close> that passes the body parser is answered by the lookup by id, with
  the last segment as the id.
\<close>

lemma third_segment_read_as_id:
  assumes "parsed r"
    and "http_method r = GET" and "path r = [''api'', ''products'', x]" and "x \<noteq> []"
  shows "app c r products =
     (case find (\<lambda>p. get_prop p ''id'' = Some (JStr x)) products of
        None \<Rightarrow> (error_handler c (NotFoundError ''Product not found''), products)
      | Some p \<Rightarrow> (json_response 200 (JObj p), products))"
  using assms(2-4)
  by (simp add: app_def layers_def products_path_def product_id_path_def request_logger_def
        json_parser_accepts assms(1)
        get_product_def param_id_def strict_eq_str_def toLowerCase_def toLowerChar_def
      split: option.splits)

text \<open>
  Claim C1: a request \<^verbatim>\<open>GET /api/products/search?q=...\<close> with a non-empty query is dispatched
  to the search handler, not read as a lookup by id, and returns 200 with the products whose
  name or description contains the query without regard to case.

  The code registers \<^verbatim>\<open>/api/products/:id\<close> before \<^verbatim>\<open>/api/products/search\<close>, so the lookup
  by id answers first, with the identifier \<^verbatim>\<open>search\<close>. On the seeded products the request
  for \<^verbatim>\<open>q=laptop\<close> gets 404 \<^verbatim>\<open>Product not found\<close>, although the search handler, run on the
  same request, would return the laptop with status 200.
\<close>

theorem search_request_gets_not_found:
  "app example_ctx search_laptop seeded =
     (error_handler example_ctx (NotFoundError ''Product not found''), seeded) \<and>
   status (fst (app example_ctx search_laptop seeded)) = 404 \<and>
   search_products example_ctx search_laptop seeded =
     (Responded (json_response 200 (JArr [JObj (hd seeded)])), seeded)"
  by code_simp

text \<open>
  Claim C2: a request \<^verbatim>\<open>GET /api/products/stats\<close> on a store of N products returns 200 with
  \<^verbatim>\<open>totalProducts\<close> equal to N, per-category counts that sum to N, and \<^verbatim>\<open>inStock\<close> plus
  \<^verbatim>\<open>outOfStock\<close> equal to N.

  The statistics route is registered after \<^verbatim>\<open>/api/products/:id\<close> as well: on the seeded
  products the request gets 404 \<^verbatim>\<open>Product not found\<close> from the lookup by id, although the
  statistics handler, run on the same request, would return the aggregate of the two products.
\<close>

theorem stats_request_gets_not_found:
  "app example_ctx get_stats seeded =
     (error_handler example_ctx (NotFoundError ''Product not found''), seeded) \<and>
   status (fst (app example_ctx get_stats seeded)) = 404 \<and>
   product_stats example_ctx get_stats seeded =
     (Responded (json_response 200
        (JObj [(''totalProducts'', JNum 2), (''byCategory'', JObj [(''Electronics'', JNum 2)]),
               (''inStock'', JNum 2), (''outOfStock'', JNum 0)])), seeded)"
  by code_simp

section \<open>Creation\<close>

text \<open>
  What the create handler stores: the id of the payload when it has one, the generated id
  otherwise; and for \<^verbatim>\<open>inStock\<close> the payload's value when it is truthy, true otherwise.
\<close>

lemma create_product_stores:
  assumes "create_product c r products = (out, products')"
  shows "\<exists>p. products' = products @ [p] \<and> out = Responded (json_response 201 (JObj p)) \<and>
             get_prop p ''id'' =
               (case get_prop (body r) ''id'' of None \<Rightarrow> Some (JStr (uuid c)) | Some v \<Rightarrow> Some v) \<and>
             get_prop p ''inStock'' =
               (if truthy (get_prop (body r) ''inStock'') then get_prop (body r) ''inStock''
                else Some (JBool True))"
proof -
  let ?p = "set_prop ''inStock''
              (case get_prop (body r) ''inStock'' of
                 None \<Rightarrow> JBool True
               | Some v \<Rightarrow> if truthy (Some v) then v else JBool True)
              (spread [(''id'', JStr (uuid c))] (body r))"
  have "products' = products @ [?p]" and "out = Responded (json_response 201 (JObj ?p))"
    using assms by (simp_all add: create_product_def Let_def)
  moreover have "get_prop ?p ''id'' =
      (case get_prop (body r) ''id'' of None \<Rightarrow> Some (JStr (uuid c)) | Some v \<Rightarrow> Some v)"
    by (simp add: get_prop_set_prop get_prop_spread) (simp add: get_prop_def split: option.splits)
  moreover have "get_prop ?p ''inStock'' =
      (if truthy (get_prop (body r) ''inStock'') then get_prop (body r) ''inStock''
       else Some (JBool True))"
    by (auto simp: get_prop_set_prop split: option.splits)
  ultimately show ?thesis by blast
qed

text \<open>
  Claim C3: the stored product's \<^verbatim>\<open>inStock\<close> equals the value supplied in a valid create
  payload, an explicit false included, and is true only when the payload omits it.

  The code computes \<^verbatim>\<open>req.body.inStock || true\<close>, which is true for every falsy value: a
  valid payload with \<^verbatim>\<open>inStock: false\<close> is stored, and returned with status 201, with
  \<^verbatim>\<open>inStock: true\<close>.
\<close>

theorem create_out_of_stock_stored_in_stock:
  "app example_ctx (create_with (mouse @ [(''inStock'', JBool False)])) seeded =
     (json_response 201
        (JObj ((''id'', JStr (uuid example_ctx)) # mouse @ [(''inStock'', JBool True)])),
      seeded @ [(''id'', JStr (uuid example_ctx)) # mouse @ [(''inStock'', JBool True)]])"
  by code_simp

text \<open>
  Claim C4: the id of a created product is a fresh identifier generated by the server, also
  when the payload contains an id, so that the ids of the collection stay unique.

  The object literal of the create handler writes the generated id first and the properties of
  the body after it, so an id in the payload replaces the generated one: a valid payload that
  carries the id of the first seeded product is stored under that id, and the collection then
  holds two products with the same id.
\<close>

theorem create_with_id_duplicates_id:
  "map (\<lambda>p. get_prop p ''id'')
       (snd (app example_ctx (create_with ((''id'', JStr id1) # mouse)) seeded)) =
     [Some (JStr id1), Some (JStr id2), Some (JStr id1)] \<and>
   status (fst (app example_ctx (create_with ((''id'', JStr id1) # mouse)) seeded)) = 201"
  by code_simp

section \<open>Authentication of the protected routes\<close>

text \<open>
  Claim C8, amended: every request to a mutating route (create, update, delete) whose body the
  JSON parser accepts and whose \<^verbatim>\<open>x-api-key\<close> header is absent or differs from the configured
  secret gets 401 Unauthorized; the handlers after \<open>authenticate\<close> in the chain are not run,
  whatever they are, and the collection is unchanged.
\<close>

theorem unauthenticated_mutation_rejected:
  assumes "parsed r"
    and "mutating_route r" and "x_api_key r = None \<or> x_api_key r \<noteq> API_KEY c"
  shows "app c r products = (unauthorized, products) \<and> status unauthorized = 401 \<and>
         (\<forall>hs. run_chain (authenticate # hs) c r products = (Responded unauthorized, products))"
proof -
  have rej: "authenticate c (r\<lparr>params := ps\<rparr>) products = (Responded unauthorized, products)" for ps
    using assms(3) by (intro authenticate_rejects) simp
  have chain: "run_chain (authenticate # hs) c r products = (Responded unauthorized, products)" for hs
    using authenticate_rejects [OF assms(3)] by simp
  have "app c r products = (unauthorized, products)"
    using assms(2) rej
    by (cases "http_method r")
       (auto simp: app_def layers_def mutating_route_def request_logger_def
          json_parser_accepts assms(1))
  with chain show ?thesis by (simp add: unauthorized_def json_response_def)
qed

theorem unauthenticated_mutation_rejected_witness:
  "app example_ctx ((create_with mouse)\<lparr>x_api_key := Some ''guess''\<rparr>) seeded = (unauthorized, seeded) \<and>
   app example_ctx ((update_with mouse)\<lparr>x_api_key := None\<rparr>) seeded = (unauthorized, seeded) \<and>
   status unauthorized = 401 \<and>
   run_chain [authenticate, validateProduct, create_product] example_ctx
      ((create_with mouse)\<lparr>x_api_key := Some ''guess''\<rparr>) seeded = (Responded unauthorized, seeded)"
proof -
  have p1: "parsed ((create_with mouse)\<lparr>x_api_key := Some ''guess''\<rparr>)"
    by code_simp
  have p2: "parsed ((update_with mouse)\<lparr>x_api_key := None\<rparr>)"
    by code_simp
  have m1: "mutating_route ((create_with mouse)\<lparr>x_api_key := Some ''guess''\<rparr>)"
    by code_simp
  have k1: "x_api_key ((create_with mouse)\<lparr>x_api_key := Some ''guess''\<rparr>) = None \<or>
            x_api_key ((create_with mouse)\<lparr>x_api_key := Some ''guess''\<rparr>) \<noteq> API_KEY example_ctx"
    by code_simp
  have m2: "mutating_route ((update_with mouse)\<lparr>x_api_key := None\<rparr>)"
    by code_simp
  have k2: "x_api_key ((update_with mouse)\<lparr>x_api_key := None\<rparr>) = None \<or>
            x_api_key ((update_with mouse)\<lparr>x_api_key := None\<rparr>) \<noteq> API_KEY example_ctx"
    by code_simp
  show ?thesis
    using unauthenticated_mutation_rejected [OF p1 m1 k1, of seeded]
          unauthenticated_mutation_rejected [OF p2 m2 k2, of seeded]
    by blast
qed

text \<open>
  Claim C8 as stated fails for a request whose body the parser refuses: \<^verbatim>\<open>express.json()\<close> is
  mounted before every route (line 11), so a create request without a key whose JSON does not
  parse is answered 400 by the error-handling middleware, and one whose body is too large 413,
  before \<open>authenticate\<close> runs. The collection is unchanged all the same.
\<close>

theorem unparsable_body_answered_before_authentication:
  "mutating_route (keyless_create_refused (BadRequest ''Unexpected token b in JSON at position 1'')) \<and>
   x_api_key (keyless_create_refused (BadRequest ''Unexpected token b in JSON at position 1'')) = None \<and>
   app example_ctx
       (keyless_create_refused (BadRequest ''Unexpected token b in JSON at position 1'')) seeded =
     (error_handler example_ctx
        (ParserError (BadRequest ''Unexpected token b in JSON at position 1'')), seeded) \<and>
   status (fst (app example_ctx
       (keyless_create_refused (BadRequest ''Unexpected token b in JSON at position 1'')) seeded)) = 400 \<and>
   status (fst (app example_ctx (keyless_create_refused TooLarge) seeded)) = 413"
  by code_simp

section \<open>The shape of failure responses\<close>

text \<open>
  Claim C9, amended: every failure response (status 400 or above) of the service, other than
  the 401 of \<open>authenticate\<close> and the framework's 404 for a request that no route matches, is
  written by the error-handling middleware: its body has the shape
  \<^verbatim>\<open>{ error: { message, status, timestamp } }\<close> with \<^verbatim>\<open>status\<close> equal to the HTTP status. Its
  status is 400, 404 or 500 when the body parser accepts the request, and the status of the
  parser's error (400, 413 or 415) when it refuses it.
\<close>

theorem failure_responses_error_shaped:
  assumes "app c r products = (resp, products')"
    and "400 \<le> status resp" and "resp \<noteq> unauthorized" and "resp \<noteq> default_not_found r"
  shows "error_shaped resp \<and> (\<exists>e. resp = error_handler c e) \<and>
         status resp \<in> {400, 404, 413, 415, 500} \<and>
         (parsed r \<longrightarrow> status resp \<in> {400, 404, 500}) \<and>
         (\<forall>f. payload r = Refused f \<longrightarrow>
              resp = error_handler c (ParserError f) \<and> status resp = refusal_status f)"
proof (cases "payload r")
  case (Refused f)
  then have "json_parser c (r\<lparr>params := []\<rparr>) products = (Failed (ParserError f), products)"
    by (intro json_parser_refuses) simp
  then have "app c r products = (error_handler c (ParserError f), products)"
    by (simp add: app_def layers_def)
  with assms(1) have resp: "resp = error_handler c (ParserError f)" by simp
  have "status resp = refusal_status f"
    unfolding resp by (simp add: error_handler_status)
  moreover have "refusal_status f \<in> {400, 413, 415}"
    by (cases f) simp_all
  ultimately show ?thesis
    using resp Refused error_handler_shaped [of c "ParserError f"]
    by (auto simp: parsed_def)
next
  case (Accepted b)
  have "(status resp < 400 \<or> resp = unauthorized) \<or>
        (\<exists>e. resp = error_handler c e \<and> (\<forall>f. e = ParserError f \<longrightarrow> payload r = Refused f)) \<or>
        resp = default_not_found r"
  proof (rule dispatch_response
           [where ls = layers and P = "\<lambda>x. status x < 400 \<or> x = unauthorized"
              and Q = "\<lambda>pl e. \<forall>f. e = ParserError f \<longrightarrow> pl = Refused f"])
    show "dispatch layers c r products = (resp, products')"
      using assms(1) by (simp add: app_def)
  next
    fix l h c r s x s'
    assume "l \<in> set layers" "h \<in> set (layer_handlers l)" "h c r s = (Responded x, s')"
    then show "status x < 400 \<or> x = unauthorized"
      by (auto simp: layers_def dest: handler_responses)
  next
    fix l h c r s r' s'
    assume "l \<in> set layers" "h \<in> set (layer_handlers l)" "h c r s = (Next r', s')"
    then show "http_method r' = http_method r \<and> path r' = path r \<and> payload r' = payload r"
      by (auto simp: layers_def dest: handler_passes)
  next
    fix l h c r s e s'
    assume "l \<in> set layers" "h \<in> set (layer_handlers l)" "h c r s = (Failed e, s')"
    then show "\<forall>f. e = ParserError f \<longrightarrow> payload r = Refused f"
      by (auto simp: layers_def
          dest: handler_failures list_products_failure search_products_failure
                product_stats_failure)
  qed
  with assms Accepted obtain e where resp: "resp = error_handler c e"
    and e: "\<forall>f. e \<noteq> ParserError f"
    by auto
  from e have "status (error_handler c e) \<in> {400, 404, 500}"
    by (cases e) (simp_all add: error_handler_status)
  with resp Accepted error_handler_shaped [of c e] show ?thesis
    by auto
qed

theorem failure_responses_error_shaped_witness:
  "error_shaped (fst (app example_ctx (create_with []) seeded)) \<and>
   status (fst (app example_ctx (create_with []) seeded)) = 400"
proof -
  let ?resp = "error_handler example_ctx (ValidationError ''Name, price and category are required'')"
  have a: "app example_ctx (create_with []) seeded = (?resp, seeded)" by code_simp
  have b: "400 \<le> status ?resp" by code_simp
  have c: "?resp \<noteq> unauthorized" by code_simp
  have d: "?resp \<noteq> default_not_found (create_with [])" by code_simp
  have e: "status ?resp = 400" by code_simp
  from failure_responses_error_shaped [OF a b c d] a e show ?thesis by simp
qed

text \<open>
  Claim C9 as stated fails for the unauthorized response: \<open>authenticate\<close> answers by itself
  with status 401 and the body \<^verbatim>\<open>{ message: 'Unauthorized' }\<close>, which has no \<^verbatim>\<open>error\<close>
  property. It fails as well for a request that no route matches, which gets the framework's
  404 page.
\<close>

theorem unauthorized_not_error_shaped:
  "fst (app example_ctx ((create_with mouse)\<lparr>x_api_key := None\<rparr>) seeded) = unauthorized \<and>
   status unauthorized = 401 \<and> \<not> error_shaped unauthorized \<and>
   fst (app example_ctx (list_with no_query\<lparr>path := [''api'']\<rparr>) seeded) =
     \<lparr>status = 404, content = HtmlBody ''Cannot GET /api''\<rparr> \<and>
   \<not> error_shaped \<lparr>status = 404, content = HtmlBody ''Cannot GET /api''\<rparr>"
  by code_simp

section \<open>Update\<close>

lemma update_product_found:
  assumes "param_id r = Some pid"
    and "i < length products" and "get_prop (products ! i) ''id'' = Some (JStr pid)"
    and "\<forall>j<i. get_prop (products ! j) ''id'' \<noteq> Some (JStr pid)"
  shows "\<exists>updated.
           update_product c r products =
             (Responded (json_response 200 (JObj updated)), products[i := updated]) \<and>
           get_prop updated ''id'' = Some (JStr pid) \<and>
           (\<forall>k. k \<noteq> ''id'' \<longrightarrow>
                get_prop updated k =
                  (case get_prop (body r) k of None \<Rightarrow> get_prop (products ! i) k | Some v \<Rightarrow> Some v))"
proof -
  have "findIndex (\<lambda>p. strict_eq_str (get_prop p ''id'') (param_id r)) products = Some i"
    using assms by (intro findIndex_first) (simp_all add: strict_eq_str_def)
  then show ?thesis
    using assms(3)
    by (intro exI [of _ "set_prop ''id'' (JStr pid) (spread (spread [] (products ! i)) (body r))"])
       (simp add: update_product_def Let_def get_prop_set_prop get_prop_spread get_prop_Nil
          split: option.splits)
qed

text \<open>
  Claim C5, amended: for every authenticated \<^verbatim>\<open>PUT /api/products/:id\<close> whose payload the
  body parser accepts and which passes validation (name, price and category truthy, the price
  a number above 0) and every stored product with that id (the first one, should several have
  it), the response is 200 with the record obtained by merging the payload onto the stored
  record, which replaces it in the collection: the id is the old one, and every other property
  has the payload's value when the payload supplies it and its prior value otherwise.
\<close>

theorem update_merges_accepted_payload:
  assumes "parsed r"
    and "http_method r = PUT" and "match_path product_id_path (path r) = Some [(''id'', pid)]"
    and "x_api_key r = Some key" and "API_KEY c = Some key" and "key \<noteq> []"
    and "accepted (body r)"
    and "i < length products" and "get_prop (products ! i) ''id'' = Some (JStr pid)"
    and "\<forall>j<i. get_prop (products ! j) ''id'' \<noteq> Some (JStr pid)"
  shows "\<exists>updated.
           app c r products = (json_response 200 (JObj updated), products[i := updated]) \<and>
           get_prop updated ''id'' = Some (JStr pid) \<and>
           (\<forall>k. k \<noteq> ''id'' \<longrightarrow>
                get_prop updated k =
                  (case get_prop (body r) k of None \<Rightarrow> get_prop (products ! i) k | Some v \<Rightarrow> Some v))"
proof -
  let ?r = "r\<lparr>params := [(''id'', pid)]\<rparr>"
  have auth: "authenticate c ?r products = (Next ?r, products)"
    using assms(4-6) by (intro authenticate_passes) simp_all
  have valid: "validateProduct c ?r products = (Next ?r, products)"
    using assms(7) by (intro validateProduct_accepted) simp
  obtain updated where
    upd: "update_product c ?r products =
            (Responded (json_response 200 (JObj updated)), products[i := updated])"
    and id: "get_prop updated ''id'' = Some (JStr pid)"
    and rest: "\<forall>k. k \<noteq> ''id'' \<longrightarrow>
                get_prop updated k =
                  (case get_prop (body ?r) k of None \<Rightarrow> get_prop (products ! i) k | Some v \<Rightarrow> Some v)"
    using update_product_found [of ?r pid i products c] assms(8-10)
    by (auto simp: param_id_def)
  have "app c r products = (json_response 200 (JObj updated), products[i := updated])"
    using assms(2,3) auth valid upd
    by (simp add: app_def layers_def request_logger_def json_parser_accepts assms(1))
  with id rest show ?thesis by auto
qed

theorem update_merges_accepted_payload_witness:
  "\<exists>updated.
     app example_ctx (update_with (mouse @ [(''id'', JStr id2)])) seeded =
       (json_response 200 (JObj updated), seeded[0 := updated]) \<and>
     get_prop updated ''id'' = Some (JStr id1) \<and>
     get_prop updated ''name'' = Some (JStr ''Mouse'') \<and>
     get_prop updated ''description'' = Some (JStr ''High performance laptop'')"
proof -
  let ?r = "update_with (mouse @ [(''id'', JStr id2)])"
  have h0: "parsed ?r" by code_simp
  have h1: "http_method ?r = PUT" by code_simp
  have h2: "match_path product_id_path (path ?r) = Some [(''id'', id1)]" by code_simp
  have h3: "x_api_key ?r = Some ''s3cret''" by code_simp
  have h4: "API_KEY example_ctx = Some ''s3cret''" by code_simp
  have h5: "''s3cret'' \<noteq> []" by simp
  have h6: "accepted (body ?r)" by code_simp
  have h7: "0 < length seeded" by code_simp
  have h8: "get_prop (seeded ! 0) ''id'' = Some (JStr id1)" by code_simp
  have h9: "\<forall>j<0. get_prop (seeded ! j) ''id'' \<noteq> Some (JStr id1)" by simp
  have b1: "get_prop (body ?r) ''name'' = Some (JStr ''Mouse'')" by code_simp
  have b2: "get_prop (body ?r) ''description'' = None" by code_simp
  have b3: "get_prop (seeded ! 0) ''description'' = Some (JStr ''High performance laptop'')"
    by code_simp
  from update_merges_accepted_payload [OF h0 h1 h2 h3 h4 h5 h6 h7 h8 h9]
  obtain updated where
    "app example_ctx ?r seeded = (json_response 200 (JObj updated), seeded[0 := updated])"
    "get_prop updated ''id'' = Some (JStr id1)"
    "\<forall>k. k \<noteq> ''id'' \<longrightarrow>
       get_prop updated k =
         (case get_prop (body ?r) k of None \<Rightarrow> get_prop (seeded ! 0) k | Some v \<Rightarrow> Some v)"
    by blast
  moreover from this(3) have "get_prop updated ''name'' = Some (JStr ''Mouse'')"
    using b1 by simp
  moreover from calculation(3) have "get_prop updated ''description'' = Some (JStr ''High performance laptop'')"
    using b2 b3 by simp
  ultimately show ?thesis by blast
qed

text \<open>
  Claim C5 as stated fails for a partial payload: \<open>validateProduct\<close> runs on the update route
  too, so an authenticated update of the first seeded product with the payload
  \<^verbatim>\<open>{ price: 1200 }\<close> gets 400 and changes nothing.
\<close>

theorem partial_update_rejected:
  "app example_ctx (update_with [(''price'', JNum 1200)]) seeded =
     (error_handler example_ctx (ValidationError ''Name, price and category are required''), seeded) \<and>
   status (fst (app example_ctx (update_with [(''price'', JNum 1200)]) seeded)) = 400"
  by code_simp

section \<open>Validation on create\<close>

text \<open>
  Claim C6, amended: for every authenticated create request whose payload the body parser
  accepts, if name, price or category is falsy (absent, null, false, 0 or the empty string), or
  the price is not a number, or the price is at most 0, the response is a 400 validation error
  and the collection is unchanged; for every other payload \<open>validateProduct\<close> hands the
  request on unchanged, and the product is appended and returned with 201.
\<close>

theorem create_validation:
  assumes "parsed r"
    and "http_method r = POST" and "match_path products_path (path r) \<noteq> None"
    and "x_api_key r = Some key" and "API_KEY c = Some key" and "key \<noteq> []"
  shows "(accepted (body r) \<longrightarrow>
            validateProduct c r products = (Next r, products) \<and>
            (\<exists>p. app c r products = (json_response 201 (JObj p), products @ [p]))) \<and>
         (\<not> accepted (body r) \<longrightarrow>
            (\<exists>m. app c r products = (error_handler c (ValidationError m), products)) \<and>
            status (fst (app c r products)) = 400)"
proof -
  let ?r = "r\<lparr>params := []\<rparr>"
  obtain a b where p: "path r = [a, b]" and m: "match_path products_path (path r) = Some []"
    using match_products_path [OF assms(3)] by blast
  have root_no: "match_path [] (path r) = None"
    using p by simp
  have auth: "authenticate c ?r products = (Next ?r, products)"
    using assms(4-6) by (intro authenticate_passes) simp_all
  have run: "app c r products =
      (case validateProduct c ?r products of
         (Next r', s) \<Rightarrow> (case create_product c r' s of (Responded resp, s') \<Rightarrow> (resp, s') | (out, s') \<Rightarrow> (default_not_found r, s'))
       | (Failed e, s) \<Rightarrow> (error_handler c e, s)
       | (Responded resp, s) \<Rightarrow> (resp, s))"
    using assms(2) m auth
    by (simp add: app_def layers_def request_logger_def json_parser_accepts assms(1)
          create_product_def Let_def
        split: prod.splits outcome.splits)
  show ?thesis
  proof (cases "accepted (body r)")
    case True
    then have "validateProduct c ?r products = (Next ?r, products)"
      by (intro validateProduct_accepted) simp
    with run True show ?thesis
      by (simp add: validateProduct_accepted create_product_def Let_def)
  next
    case False
    then obtain msg where "validateProduct c ?r products = (Failed (ValidationError msg), products)"
      using validateProduct_rejected [of ?r c products] by auto
    with run False show ?thesis
      by (simp add: error_handler_def json_response_def)
  qed
qed

theorem create_validation_witness:
  "validateProduct example_ctx (create_with mouse) seeded = (Next (create_with mouse), seeded) \<and>
   (\<exists>p. app example_ctx (create_with mouse) seeded = (json_response 201 (JObj p), seeded @ [p])) \<and>
   (\<exists>m. app example_ctx (create_with (tl mouse)) seeded =
          (error_handler example_ctx (ValidationError m), seeded)) \<and>
   status (fst (app example_ctx (create_with (tl mouse)) seeded)) = 400"
proof -
  have h0: "parsed (create_with b)" for b by (simp add: create_with_def parsed_def)
  have h1: "http_method (create_with b) = POST" for b by (simp add: create_with_def)
  have h2: "match_path products_path (path (create_with b)) \<noteq> None" for b
    unfolding create_with_def by code_simp
  have h3: "x_api_key (create_with b) = Some ''s3cret''" for b by (simp add: create_with_def)
  have h4: "API_KEY example_ctx = Some ''s3cret''" by (simp add: example_ctx_def)
  have h5: "''s3cret'' \<noteq> []" by simp
  have yes: "accepted (body (create_with mouse))" by code_simp
  have no: "\<not> accepted (body (create_with (tl mouse)))" by code_simp
  note pass =
    create_validation [OF h0 h1 h2 h3 h4 h5, of mouse seeded, THEN conjunct1, THEN mp, OF yes]
  note fail =
    create_validation [OF h0 h1 h2 h3 h4 h5, of "tl mouse" seeded, THEN conjunct2, THEN mp, OF no]
  from pass fail show ?thesis by blast
qed

text \<open>
  Claim C6 as stated fails for a payload whose name is present but empty: it has a name, a
  category and a numeric price above 0, so the claim lets it through, yet the first test of
  \<open>validateProduct\<close> (\<^verbatim>\<open>!name\<close>) rejects it with 400.
\<close>

theorem empty_name_rejected:
  "spec_accepted ((''name'', JStr []) # tl mouse) \<and>
   app example_ctx (create_with ((''name'', JStr []) # tl mouse)) seeded =
     (error_handler example_ctx (ValidationError ''Name, price and category are required''), seeded) \<and>
   status (fst (app example_ctx (create_with ((''name'', JStr []) # tl mouse)) seeded)) = 400"
  by code_simp

section \<open>Listing\<close>

lemma category_matches_text:
  "has_text ''category'' p \<Longrightarrow> category_matches cat p = Inr (text_equals ''category'' cat p)"
  by (auto simp: has_text_def category_matches_def text_equals_def split: option.splits json.splits)

lemma page_and_limit_safe:
  "\<bar>page_of qr\<bar> \<le> 9007199254740991 \<and> \<bar>limit_of qr\<bar> \<le> 9007199254740991"
  using int_of by (auto simp: page_of_def limit_of_def split: option.splits)

lemma list_products_selected:
  assumes "0 < page_of (query r)" and "0 < limit_of (query r)"
    and "q_category (query r) = None \<or> q_category (query r) = Some [] \<or>
         (\<forall>p\<in>set products. has_text ''category'' p)"
  shows "list_products c r products =
     (Responded (json_response 200
        (JObj [(''data'', JArr (map JObj (window (page_of (query r)) (limit_of (query r))
                                  (selected (q_category (query r)) products)))),
               (''currentPage'', JNum (of_int (page_of (query r)))),
               (''totalPages'',
                  JNum (of_int \<lceil>(of_nat (length (selected (q_category (query r)) products)) :: rat) /
                                 of_int (limit_of (query r))\<rceil>)),
               (''totalItems'', JNum (of_nat (length (selected (q_category (query r)) products))))])),
      products)"
proof -
  have sel: "(case q_category (query r) of
                None \<Rightarrow> Inr products
              | Some cat \<Rightarrow> if cat = [] then Inr products
                            else filter_throwing (category_matches cat) products) =
             Inr (selected (q_category (query r)) products)"
  proof (cases "q_category (query r)")
    case None
    then show ?thesis by (simp add: selected_def)
  next
    case (Some cat)
    show ?thesis
    proof (cases "cat = []")
      case True
      with Some show ?thesis by (simp add: selected_def)
    next
      case False
      with Some assms(3) have "\<forall>p\<in>set products. has_text ''category'' p" by simp
      then have "filter_throwing (category_matches cat) products =
                 Inr (filter (text_equals ''category'' cat) products)"
        by (intro filter_throwing_total) (simp add: category_matches_text)
      with Some False show ?thesis by (simp add: selected_def)
    qed
  qed
  show ?thesis
    using assms(1,2)
    unfolding list_products_def Let_def sel page_of_def [symmetric] limit_of_def [symmetric]
    by (simp add: slice_window ceil_ratio_def)
qed

text \<open>
  Claim C7, amended: for every list request that passes the body parser and whose page and
  limit are positive integers up to \<open>2\<^sup>5\<^sup>3 - 1\<close> = 9007199254740991, the largest integer
  below which every integer is a double (1 and 10 when absent), on every store (whose products have a text category, when a
  non-empty category is given), the response is 200; its data is the slice from \<open>(page - 1) * limit\<close> up to
  \<open>page * limit\<close> of the products whose category equals the given one without regard to case,
  in insertion order, and of all products when the category is absent or empty; totalItems is
  the number of those products, totalPages is the ceiling of totalItems / limit, and the store
  is unchanged.
\<close>

theorem list_returns_window:
  assumes "parsed r"
    and "http_method r = GET" and "match_path products_path (path r) \<noteq> None"
    and "0 < page_of (query r)" and "0 < limit_of (query r)"
    and "page_of (query r) \<le> 9007199254740991" and "limit_of (query r) \<le> 9007199254740991"
    and "q_category (query r) = None \<or> q_category (query r) = Some [] \<or>
         (\<forall>p\<in>set products. has_text ''category'' p)"
  shows "app c r products =
     (json_response 200
        (JObj [(''data'', JArr (map JObj (window (page_of (query r)) (limit_of (query r))
                                  (selected (q_category (query r)) products)))),
               (''currentPage'', JNum (of_int (page_of (query r)))),
               (''totalPages'',
                  JNum (of_int \<lceil>(of_nat (length (selected (q_category (query r)) products)) :: rat) /
                                 of_int (limit_of (query r))\<rceil>)),
               (''totalItems'', JNum (of_nat (length (selected (q_category (query r)) products))))]),
      products)"
proof -
  obtain a b where p: "path r = [a, b]" and m: "match_path products_path (path r) = Some []"
    using match_products_path [OF assms(3)] by blast
  have l: "list_products c (r\<lparr>params := []\<rparr>) products = list_products c r products"
    by (simp add: list_products_def)
  show ?thesis
    using assms(2) p m l list_products_selected [OF assms(4,5,8), of c]
    by (simp add: app_def layers_def request_logger_def json_parser_accepts assms(1))
qed

theorem list_returns_window_witness:
  "app example_ctx
     (list_with (no_query\<lparr>q_category := Some ''electronics'', q_page := Some (Safe 1),
                           q_limit := Some (Safe 1)\<rparr>))
     seeded =
     (json_response 200
        (JObj [(''data'', JArr [JObj (hd seeded)]), (''currentPage'', JNum 1),
               (''totalPages'', JNum 2), (''totalItems'', JNum 2)]),
      seeded)"
proof -
  let ?q = "no_query\<lparr>q_category := Some ''electronics'', q_page := Some (Safe 1),
                      q_limit := Some (Safe 1)\<rparr>"
  have one: "int_of (Safe 1) = 1" by (simp add: Safe_inverse)
  have p: "page_of (query (list_with ?q)) = 1" by (simp add: page_of_def list_with_def one)
  have l: "limit_of (query (list_with ?q)) = 1" by (simp add: limit_of_def list_with_def one)
  have c: "q_category (query (list_with ?q)) = Some ''electronics''" by (simp add: list_with_def)
  have h0: "parsed (list_with ?q)" by (simp add: parsed_def list_with_def)
  have h1: "http_method (list_with ?q) = GET" by (simp add: list_with_def)
  have "match_path products_path [''api'', ''products''] \<noteq> None" by code_simp
  then have h2: "match_path products_path (path (list_with ?q)) \<noteq> None"
    by (simp add: list_with_def)
  have h3: "0 < page_of (query (list_with ?q))" using p by simp
  have h4: "0 < limit_of (query (list_with ?q))" using l by simp
  have b1: "page_of (query (list_with ?q)) \<le> 9007199254740991" using p by simp
  have b2: "limit_of (query (list_with ?q)) \<le> 9007199254740991" using l by simp
  have "\<forall>p\<in>set seeded. has_text ''category'' p" by code_simp
  then have h5: "q_category (query (list_with ?q)) = None \<or>
            q_category (query (list_with ?q)) = Some [] \<or>
            (\<forall>p\<in>set seeded. has_text ''category'' p)" by simp
  have v: "(json_response 200
        (JObj [(''data'', JArr (map JObj (window 1 1 (selected (Some ''electronics'') seeded)))),
               (''currentPage'', JNum (of_int 1)),
               (''totalPages'',
                  JNum (of_int \<lceil>(of_nat (length (selected (Some ''electronics'') seeded)) :: rat) /
                                 of_int 1\<rceil>)),
               (''totalItems'', JNum (of_nat (length (selected (Some ''electronics'') seeded))))]),
      seeded) =
     (json_response 200
        (JObj [(''data'', JArr [JObj (hd seeded)]), (''currentPage'', JNum 1),
               (''totalPages'', JNum 2), (''totalItems'', JNum 2)]),
      seeded)" by code_simp
  note t = list_returns_window [OF h0 h1 h2 h3 h4 b1 b2 h5, of example_ctx, unfolded p l c]
  show ?thesis
    by (rule trans [OF t v])
qed

text \<open>
  Claim C7 as stated fails for an empty category parameter (\<^verbatim>\<open>?category=\<close>): the handler
  tests \<^verbatim>\<open>if (category)\<close>, which is false for the empty string, and lists every product,
  while no seeded product has the category given.
\<close>

theorem empty_category_lists_everything:
  "fst (app example_ctx (list_with (no_query\<lparr>q_category := Some []\<rparr>)) seeded) =
     json_response 200
       (JObj [(''data'', JArr (map JObj seeded)), (''currentPage'', JNum 1),
              (''totalPages'', JNum 1), (''totalItems'', JNum 2)]) \<and>
   spec_selected (Some []) seeded = []"
  by code_simp

section \<open>Search on products without description\<close>

lemma search_matches_text:
  assumes "has_text ''name'' p"
    and "get_prop p ''description'' = None \<or> has_text ''description'' p"
  shows "search_matches q p =
     (if text_contains ''name'' q p then Inr True
      else if get_prop p ''description'' = None then Inl undefined_description
      else Inr (text_contains ''description'' q p))"
  using assms
  by (auto simp: search_matches_def has_text_def text_contains_def undefined_description_def
      split: option.splits json.splits)

text \<open>
  Claim C10, amended: on a store whose products have a text name and a description that is
  text or absent, the search for a non-empty query fails with a \<open>TypeError\<close> (status 500)
  whenever some product has no description and a name that does not contain the query; when
  every product without description has a name containing the query, the search returns 200
  with the products whose name or description contains the query, without regard to case.
\<close>

theorem search_fails_on_unmatched_product_without_description:
  assumes "q_q (query r) = Some q" and "q \<noteq> []"
    and "\<forall>p\<in>set products. has_text ''name'' p"
    and "\<forall>p\<in>set products. get_prop p ''description'' = None \<or> has_text ''description'' p"
  shows "((\<exists>p\<in>set products. get_prop p ''description'' = None \<and> \<not> text_contains ''name'' q p) \<longrightarrow>
            search_products c r products = (Failed undefined_description, products) \<and>
            status (error_handler c undefined_description) = 500) \<and>
         ((\<forall>p\<in>set products. get_prop p ''description'' = None \<longrightarrow> text_contains ''name'' q p) \<longrightarrow>
            search_products c r products =
              (Responded (json_response 200 (JArr (map JObj
                 (filter (\<lambda>p. text_contains ''name'' q p \<or> text_contains ''description'' q p)
                    products)))), products))"
proof (intro conjI impI)
  assume "\<exists>p\<in>set products. get_prop p ''description'' = None \<and> \<not> text_contains ''name'' q p"
  then obtain p where p: "p \<in> set products" "get_prop p ''description'' = None"
    "\<not> text_contains ''name'' q p" by blast
  then have "search_matches q p = Inl undefined_description"
    using assms(3,4) by (simp add: search_matches_text)
  from filter_throwing_fails [where f = "search_matches q", OF p(1) this]
  obtain e y where e: "filter_throwing (search_matches q) products = Inl e"
    and y: "y \<in> set products" "search_matches q y = Inl e" by blast
  from y assms(3,4) have "e = undefined_description"
    by (auto simp: search_matches_text split: if_splits)
  with e assms(1,2)
  show "search_products c r products = (Failed undefined_description, products)"
    by (simp add: search_products_def)
next
  show "status (error_handler c undefined_description) = 500"
    by (simp add: error_handler_def undefined_description_def json_response_def)
next
  assume all: "\<forall>p\<in>set products. get_prop p ''description'' = None \<longrightarrow> text_contains ''name'' q p"
  have "filter_throwing (search_matches q) products =
        Inr (filter (\<lambda>p. text_contains ''name'' q p \<or> text_contains ''description'' q p) products)"
  proof (rule filter_throwing_total)
    fix p assume "p \<in> set products"
    with assms(3,4) all
    show "search_matches q p = Inr (text_contains ''name'' q p \<or> text_contains ''description'' q p)"
      by (auto simp: search_matches_text)
  qed
  with assms(1,2)
  show "search_products c r products =
          (Responded (json_response 200 (JArr (map JObj
             (filter (\<lambda>p. text_contains ''name'' q p \<or> text_contains ''description'' q p)
                products)))), products)"
    by (simp add: search_products_def)
qed

theorem search_fails_on_unmatched_product_without_description_witness:
  "search_products example_ctx (search_for ''phone'') (seeded @ [bare_laptop]) =
     (Failed undefined_description, seeded @ [bare_laptop]) \<and>
   search_products example_ctx (search_for ''LAP'') (seeded @ [bare_laptop]) =
     (Responded (json_response 200 (JArr [JObj (hd seeded), JObj bare_laptop])), seeded @ [bare_laptop])"
proof -
  let ?s = "seeded @ [bare_laptop]"
  have h1: "q_q (query (search_for ''phone'')) = Some ''phone''" by code_simp
  have h1': "q_q (query (search_for ''LAP'')) = Some ''LAP''" by code_simp
  have h2: "''phone'' \<noteq> []" "''LAP'' \<noteq> []" by simp_all
  have h3: "\<forall>p\<in>set ?s. has_text ''name'' p" by code_simp
  have h4: "\<forall>p\<in>set ?s. get_prop p ''description'' = None \<or> has_text ''description'' p"
    by code_simp
  have a: "\<exists>p\<in>set ?s. get_prop p ''description'' = None \<and> \<not> text_contains ''name'' ''phone'' p"
    by code_simp
  have b: "\<forall>p\<in>set ?s. get_prop p ''description'' = None \<longrightarrow> text_contains ''name'' ''LAP'' p"
    by code_simp
  have v: "(Responded (json_response 200 (JArr (map JObj
             (filter (\<lambda>p. text_contains ''name'' ''LAP'' p \<or> text_contains ''description'' ''LAP'' p) ?s)))),
            ?s) =
           (Responded (json_response 200 (JArr [JObj (hd seeded), JObj bare_laptop])), ?s)"
    by code_simp
  note fails =
    search_fails_on_unmatched_product_without_description
      [OF h1 h2(1) h3 h4, of example_ctx, THEN conjunct1, THEN mp, OF a, THEN conjunct1]
  note succeeds =
    search_fails_on_unmatched_product_without_description
      [OF h1' h2(2) h3 h4, of example_ctx, THEN conjunct2, THEN mp, OF b]
  show ?thesis
    by (rule conjI [OF fails trans [OF succeeds v]])
qed

text \<open>
  Claim C10 as stated fails when the name of the product without description contains the
  query: the description is then never read, and the search for \<^verbatim>\<open>laptop\<close> on a store that
  holds only a laptop without description returns it with status 200.
\<close>

theorem search_succeeds_without_description:
  "get_prop bare_laptop ''description'' = None \<and>
   search_products example_ctx search_laptop [bare_laptop] =
     (Responded (json_response 200 (JArr [JObj bare_laptop])), [bare_laptop])"
  by code_simp

end
